theory Spec2Isabelle
  imports Main "HOL-Library.Word" "HOL-Library.Multiset" "HOL-Library.Sublist"
    "HOL-Library.Char_ord" "HOL-Library.List_Lexorder"
begin

unbundle bit_operations_syntax

section \<open>The ICE/TCP demultiplexer (ice_tcp_demultiplexer.h, ice_tcp_demultiplexer.cpp)\<close>

subsection \<open>Data model\<close>

type_synonym byte = "8 word"

text \<open>
  Modelled from the spec: \<open>IcePacketIdentifier::PacketType\<close> is declared in
  ice_packet_identifier.h, which is not part of the sources. The demultiplexer names the
  values STUN, TURN_CHANNEL_DATA and UNKNOWN; the spec (section 3, Packet) lists exactly these.
\<close>

datatype PacketType = STUN | TURN_CHANNEL_DATA | UNKNOWN

text \<open>\<open>enum class ConnectionType\<close> and \<open>enum class ExtractResult\<close> of the header.\<close>

datatype ConnectionType = Unknown | TurnRelay | IceTcpDirect

datatype ExtractResult = SUCCESS | NOT_ENOUGH_BUFFER | FAILED

text \<open>\<open>class Packet\<close>: the type label and the owned data.\<close>

record Packet =
  p_type :: PacketType
  p_data :: "byte list"

text \<open>
  The private state of \<open>IceTcpDemultiplexer\<close>: \<open>_buffer\<close>, the queue \<open>_packets\<close>
  (front of the queue is the head of the list) and \<open>_connection_type\<close>.
\<close>

record demux =
  buffer :: "byte list"
  packets :: "Packet list"
  connection_type :: ConnectionType

text \<open>The constructor: an empty buffer, no packet, type Unknown.\<close>

definition IceTcpDemultiplexer :: demux where
  "IceTcpDemultiplexer = \<lparr>buffer = [], packets = [], connection_type = Unknown\<rparr>"

definition MINIMUM_PACKET_HEADER_SIZE :: nat where
  "MINIMUM_PACKET_HEADER_SIZE = 4"

definition RFC4571_HEADER_SIZE :: nat where
  "RFC4571_HEADER_SIZE = 2"

subsection \<open>The collaborators, taken as parameters\<close>

text \<open>
  \<open>IcePacketIdentifier::FindPacketType\<close>, \<open>StunMessage::ParseHeader\<close> with
  \<open>GetMessageLength\<close> and \<open>GetLastErrorCode\<close>, and \<open>ChannelDataMessage::LoadHeader\<close>
  with \<open>GetPacketLength\<close> and \<open>GetLastErrorCode\<close> live in files that are not part of
  the sources. The demultiplexer only looks at three outcomes of a header decoder: it succeeded
  (and then a length can be read), it failed with NOT_ENOUGH_DATA, or it failed otherwise.
\<close>

datatype 'a HeaderResult = Parsed 'a | NOT_ENOUGH_DATA | INVALID_DATA

record collaborators =
  FindPacketType :: "byte list \<Rightarrow> PacketType"
  StunParseHeader :: "byte list \<Rightarrow> 16 word HeaderResult"
  ChannelLoadHeader :: "byte list \<Rightarrow> 32 word HeaderResult"

text \<open>
  Modelled from the spec: \<open>StunMessage::DefaultHeaderLength()\<close> is not part of the sources;
  the spec (section 6) fixes the STUN header length at 20 bytes.
\<close>

definition DefaultHeaderLength :: "32 word" where
  "DefaultHeaderLength = 20"

text \<open>
  Modelled from the spec: the byte container \<open>ov::Data\<close> is not part of the sources. The spec
  (section 6) gives it \<open>slice(offset, length)\<close> and \<open>trim_front(n)\<close>;
  \<open>Subdata(offset, length)\<close> is the slice and \<open>Subdata(offset)\<close> the rest from offset on.
  A range that reaches beyond the end is cut at the end here.
\<close>

definition Subdata :: "byte list \<Rightarrow> nat \<Rightarrow> nat \<Rightarrow> byte list" where
  "Subdata b offset len = take len (drop offset b)"

definition SubdataFrom :: "byte list \<Rightarrow> nat \<Rightarrow> byte list" where
  "SubdataFrom b offset = drop offset b"

subsection \<open>Queue operations\<close>

definition IsAvailablePacket :: "demux \<Rightarrow> bool" where
  "IsAvailablePacket d = (packets d \<noteq> [])"

text \<open>\<open>PopPacket\<close>: \<open>nullptr\<close> (None) on an empty queue, else the front, which is removed.\<close>

definition PopPacket :: "demux \<Rightarrow> Packet option \<times> demux" where
  "PopPacket d =
     (if IsAvailablePacket d = False then (None, d)
      else (Some (hd (packets d)), d\<lparr>packets := tl (packets d)\<rparr>))"

definition SetConnectionType :: "ConnectionType \<Rightarrow> demux \<Rightarrow> demux" where
  "SetConnectionType t d = d\<lparr>connection_type := t\<rparr>"

definition GetConnectionType :: "demux \<Rightarrow> ConnectionType" where
  "GetConnectionType d = connection_type d"

definition IsIceTcpDirect :: "demux \<Rightarrow> bool" where
  "IsIceTcpDirect d = (connection_type d = IceTcpDirect)"

subsection \<open>Detection of the connection type\<close>

text \<open>
  \<open>DetectConnectionType\<close>, branch by branch. The bytes are \<open>uint8_t\<close>; the reads
  \<open>data[0]\<close>, \<open>data[1]\<close>, \<open>data[2]\<close> happen only behind the length checks of the source.
\<close>

definition DetectConnectionType :: "demux \<Rightarrow> bool \<times> demux" where
  "DetectConnectionType d =
     (if length (buffer d) < RFC4571_HEADER_SIZE then (False, d)
      else
        let first_byte = buffer d ! 0 in
        if length (buffer d) \<ge> RFC4571_HEADER_SIZE + 1
           \<and> first_byte = 0 \<and> buffer d ! 2 \<ge> 0 \<and> buffer d ! 2 \<le> 3
           \<and> buffer d ! 1 \<ge> 20
        then (True, d\<lparr>connection_type := IceTcpDirect\<rparr>)
        else if first_byte \<ge> 0 \<and> first_byte \<le> 3
        then (True, d\<lparr>connection_type := TurnRelay\<rparr>)
        else if first_byte \<ge> 64 \<and> first_byte \<le> 79
        then (True, d\<lparr>connection_type := TurnRelay\<rparr>)
        else (False, d))"

subsection \<open>The three extractors\<close>

text \<open>
  \<open>ExtractRfc4571Frame\<close>. \<open>frame_length\<close> is a \<open>uint16_t\<close> assembled from two bytes;
  \<open>total_size\<close> is a \<open>size_t\<close>, so the sum cannot wrap.
\<close>

definition frame_length_of :: "byte list \<Rightarrow> 16 word" where
  "frame_length_of data = (push_bit 8 (ucast (data ! 0) :: 16 word)) OR (ucast (data ! 1) :: 16 word)"

definition ExtractRfc4571Frame :: "collaborators \<Rightarrow> demux \<Rightarrow> ExtractResult \<times> demux" where
  "ExtractRfc4571Frame c d =
     (if length (buffer d) < RFC4571_HEADER_SIZE then (NOT_ENOUGH_BUFFER, d)
      else
        let frame_length = frame_length_of (buffer d) in
        if frame_length < 20 \<or> unat frame_length > 65535 then (FAILED, d)
        else
          let total_size = RFC4571_HEADER_SIZE + unat frame_length in
          if length (buffer d) < total_size then (NOT_ENOUGH_BUFFER, d)
          else
            let payload = Subdata (buffer d) RFC4571_HEADER_SIZE (unat frame_length);
                type = FindPacketType c payload;
                packet = \<lparr>p_type = type, p_data = payload\<rparr>
            in (SUCCESS, d\<lparr>buffer := SubdataFrom (buffer d) total_size,
                            packets := packets d @ [packet]\<rparr>))"

text \<open>
  \<open>ExtractStunMessage\<close>: \<open>packet_size\<close> is a \<open>uint32_t\<close>, the header length plus the
  message length of the decoded header.
\<close>

definition ExtractStunMessage :: "collaborators \<Rightarrow> demux \<Rightarrow> ExtractResult \<times> demux" where
  "ExtractStunMessage c d =
     (case StunParseHeader c (buffer d) of
        NOT_ENOUGH_DATA \<Rightarrow> (NOT_ENOUGH_BUFFER, d)
      | INVALID_DATA \<Rightarrow> (FAILED, d)
      | Parsed message_length \<Rightarrow>
          let packet_size = DefaultHeaderLength + ucast message_length;
              data = Subdata (buffer d) 0 (unat packet_size);
              packet = \<lparr>p_type = STUN, p_data = data\<rparr>
          in (SUCCESS, d\<lparr>buffer := SubdataFrom (buffer d) (unat packet_size),
                          packets := packets d @ [packet]\<rparr>))"

definition ExtractChannelMessage :: "collaborators \<Rightarrow> demux \<Rightarrow> ExtractResult \<times> demux" where
  "ExtractChannelMessage c d =
     (case ChannelLoadHeader c (buffer d) of
        NOT_ENOUGH_DATA \<Rightarrow> (NOT_ENOUGH_BUFFER, d)
      | INVALID_DATA \<Rightarrow> (FAILED, d)
      | Parsed packet_size \<Rightarrow>
          let data = Subdata (buffer d) 0 (unat packet_size);
              packet = \<lparr>p_type = TURN_CHANNEL_DATA, p_data = data\<rparr>
          in (SUCCESS, d\<lparr>buffer := SubdataFrom (buffer d) (unat packet_size),
                          packets := packets d @ [packet]\<rparr>))"

subsection \<open>The two loops of ParseData\<close>

text \<open>
  The loop for ICE-TCP Direct: \<open>while (_buffer->GetLength() >= RFC4571_HEADER_SIZE)\<close>.
  Every successful extraction removes at least the two bytes of the prefix, so it ends.
\<close>

function ParseData_IceTcpDirect :: "collaborators \<Rightarrow> demux \<Rightarrow> bool \<times> demux" where
  "ParseData_IceTcpDirect c d =
     (if length (buffer d) \<ge> RFC4571_HEADER_SIZE then
        (if fst (ExtractRfc4571Frame c d) = SUCCESS
         then ParseData_IceTcpDirect c (snd (ExtractRfc4571Frame c d))
         else if fst (ExtractRfc4571Frame c d) = NOT_ENOUGH_BUFFER
         then (True, snd (ExtractRfc4571Frame c d))
         else (False, snd (ExtractRfc4571Frame c d)))
      else (True, d))"
  by pat_completeness auto
termination
  by (relation "measure (\<lambda>(c, d). length (buffer d))")
     (auto simp: ExtractRfc4571Frame_def Let_def SubdataFrom_def RFC4571_HEADER_SIZE_def
           split: if_splits)

declare ParseData_IceTcpDirect.simps [simp del]

text \<open>
  The loop for TURN relay: \<open>while (_buffer->GetLength() > MINIMUM_PACKET_HEADER_SIZE)\<close>.
  A channel-data decoder that reports a packet length of 0 would make the loop run forever,
  so the loop is a partial function: None stands for not returning.
\<close>

partial_function (option) ParseData_TurnRelay :: "collaborators \<Rightarrow> demux \<Rightarrow> (bool \<times> demux) option" where
  "ParseData_TurnRelay c d =
     (if length (buffer d) > MINIMUM_PACKET_HEADER_SIZE then
        (if FindPacketType c (buffer d) = STUN then
           (if fst (ExtractStunMessage c d) = SUCCESS
            then ParseData_TurnRelay c (snd (ExtractStunMessage c d))
            else if fst (ExtractStunMessage c d) = NOT_ENOUGH_BUFFER
            then Some (True, snd (ExtractStunMessage c d))
            else Some (False, snd (ExtractStunMessage c d)))
         else if FindPacketType c (buffer d) = TURN_CHANNEL_DATA then
           (if fst (ExtractChannelMessage c d) = SUCCESS
            then ParseData_TurnRelay c (snd (ExtractChannelMessage c d))
            else if fst (ExtractChannelMessage c d) = NOT_ENOUGH_BUFFER
            then Some (True, snd (ExtractChannelMessage c d))
            else Some (False, snd (ExtractChannelMessage c d)))
         else Some (False, d))
      else Some (True, d))"

declare ParseData_TurnRelay.simps [code]

subsection \<open>ParseData and AppendData\<close>

text \<open>The part of \<open>ParseData\<close> after the detection: the loop that fits the connection type.\<close>

definition ParseData_frames :: "collaborators \<Rightarrow> demux \<Rightarrow> (bool \<times> demux) option" where
  "ParseData_frames c d =
     (if connection_type d = IceTcpDirect then Some (ParseData_IceTcpDirect c d)
      else ParseData_TurnRelay c d)"

definition ParseData :: "collaborators \<Rightarrow> demux \<Rightarrow> (bool \<times> demux) option" where
  "ParseData c d =
     (if connection_type d = Unknown then
        (if \<not> fst (DetectConnectionType d) then
           (if length (buffer (snd (DetectConnectionType d))) < RFC4571_HEADER_SIZE + 1
            then Some (True, snd (DetectConnectionType d))
            else ParseData_frames c (snd (DetectConnectionType d)\<lparr>connection_type := IceTcpDirect\<rparr>))
         else ParseData_frames c (snd (DetectConnectionType d)))
      else ParseData_frames c d)"

definition AppendData :: "collaborators \<Rightarrow> demux \<Rightarrow> byte list \<Rightarrow> (bool \<times> demux) option" where
  "AppendData c d data = ParseData c (d\<lparr>buffer := buffer d @ data\<rparr>)"

subsection \<open>Sequences of calls\<close>

text \<open>
  Feeding chunks one by one with \<open>AppendData\<close>. The result is True when every call returned
  true; the first call that returns false ends the run, as the owner of the connection closes
  the socket then.
\<close>

fun AppendChunks :: "collaborators \<Rightarrow> demux \<Rightarrow> byte list list \<Rightarrow> (bool \<times> demux) option" where
  "AppendChunks c d [] = Some (True, d)"
| "AppendChunks c d (chunk # chunks) =
     (case AppendData c d chunk of
        None \<Rightarrow> None
      | Some (ok, d') \<Rightarrow> if ok then AppendChunks c d' chunks else Some (False, d'))"

text \<open>Calling \<open>PopPacket\<close> n times: the values returned, in order, and the final state.\<close>

fun PopPackets :: "nat \<Rightarrow> demux \<Rightarrow> Packet option list \<times> demux" where
  "PopPackets 0 d = ([], d)"
| "PopPackets (Suc n) d =
     (case PopPacket d of (p, d') \<Rightarrow> (case PopPackets n d' of (ps, d'') \<Rightarrow> (p # ps, d'')))"

text \<open>
  One pass through the body of the loop of \<open>ParseData\<close> that fits the connection type
  of the state, when that pass extracts a packet (the extractor returns SUCCESS and the loop
  continues): the state after the extraction. None when the loop does not enter its body,
  or when the pass ends the loop. \<open>extraction_steps n\<close> is the state after n such
  passes in a row.
\<close>

definition extraction_step :: "collaborators \<Rightarrow> demux \<Rightarrow> demux option" where
  "extraction_step c d =
     (if connection_type d = IceTcpDirect then
        (if length (buffer d) \<ge> RFC4571_HEADER_SIZE \<and> fst (ExtractRfc4571Frame c d) = SUCCESS
         then Some (snd (ExtractRfc4571Frame c d)) else None)
      else
        (if length (buffer d) > MINIMUM_PACKET_HEADER_SIZE then
           (if FindPacketType c (buffer d) = STUN then
              (if fst (ExtractStunMessage c d) = SUCCESS
               then Some (snd (ExtractStunMessage c d)) else None)
            else if FindPacketType c (buffer d) = TURN_CHANNEL_DATA then
              (if fst (ExtractChannelMessage c d) = SUCCESS
               then Some (snd (ExtractChannelMessage c d)) else None)
            else None)
         else None))"

text \<open>
  The state with which \<open>ParseData\<close> reaches its loops, when it does not return before
  them: the state it is called with, or, when the connection type was Unknown, that state
  with the connection type that the detection, or else the fallback to ICE-TCP Direct, gives.
\<close>

definition ParseData_loop_entry :: "demux \<Rightarrow> demux" where
  "ParseData_loop_entry d =
     (if connection_type d = Unknown then
        (if \<not> fst (DetectConnectionType d)
         then snd (DetectConnectionType d)\<lparr>connection_type := IceTcpDirect\<rparr>
         else snd (DetectConnectionType d))
      else d)"

fun extraction_steps :: "nat \<Rightarrow> collaborators \<Rightarrow> demux \<Rightarrow> demux option" where
  "extraction_steps 0 c d = Some d"
| "extraction_steps (Suc n) c d =
     (case extraction_step c d of None \<Rightarrow> None | Some d' \<Rightarrow> extraction_steps n c d')"

text \<open>
  The public operations of the class as values, and the state after one operation and after a
  sequence of them. None: the call did not return.
\<close>

datatype operation =
    OpAppendData "byte list"
  | OpIsAvailablePacket
  | OpPopPacket
  | OpSetConnectionType ConnectionType
  | OpGetConnectionType
  | OpIsIceTcpDirect

fun apply_operation :: "collaborators \<Rightarrow> demux \<Rightarrow> operation \<Rightarrow> demux option" where
  "apply_operation c d (OpAppendData data) = map_option snd (AppendData c d data)"
| "apply_operation c d OpIsAvailablePacket = Some d"
| "apply_operation c d OpPopPacket = Some (snd (PopPacket d))"
| "apply_operation c d (OpSetConnectionType t) = Some (SetConnectionType t d)"
| "apply_operation c d OpGetConnectionType = Some d"
| "apply_operation c d OpIsIceTcpDirect = Some d"

fun apply_operations :: "collaborators \<Rightarrow> demux \<Rightarrow> operation list \<Rightarrow> demux option" where
  "apply_operations c d [] = Some d"
| "apply_operations c d (x # xs) =
     (case apply_operation c d x of None \<Rightarrow> None | Some d' \<Rightarrow> apply_operations c d' xs)"

fun is_SetConnectionType :: "operation \<Rightarrow> bool" where
  "is_SetConnectionType (OpSetConnectionType t) = True"
| "is_SetConnectionType _ = False"

subsection \<open>A concrete set of collaborators\<close>

text \<open>
  Modelled from the spec: the packet-type classifier \<open>IcePacketIdentifier::FindPacketType\<close>
  is not part of the sources. The spec (section 6) has it decide on the leading byte as in
  RFC 7983, and DetectConnectionType's comments give the ranges: 0x00-0x03 is STUN, 0x40-0x4F
  is TURN Channel Data; anything else is UNKNOWN.
\<close>

definition rfc7983_FindPacketType :: "byte list \<Rightarrow> PacketType" where
  "rfc7983_FindPacketType data =
     (case data of
        [] \<Rightarrow> UNKNOWN
      | b # _ \<Rightarrow> if b \<le> 3 then STUN
                 else if 64 \<le> b \<and> b \<le> 79 then TURN_CHANNEL_DATA
                 else UNKNOWN)"

definition be16 :: "byte \<Rightarrow> byte \<Rightarrow> 16 word" where
  "be16 hi lo = (push_bit 8 (ucast hi :: 16 word)) OR (ucast lo :: 16 word)"

text \<open>
  Modelled from the spec: the STUN header decoder \<open>StunMessage::ParseHeader\<close> is not part of
  the sources. The spec (sections 4.1 and 6) gives it a fixed header of 20 bytes holding the
  message length M, the outcomes Ok, NotEnoughData and Malformed, and the on-wire size 20 + M
  that must be buffered. The header is the one of RFC 5389: the two top bits of the first byte
  are zero, M sits in bytes 2 and 3 and is a multiple of 4, and bytes 4 to 7 are the magic
  cookie 0x2112A442.
\<close>

definition rfc5389_ParseHeader :: "byte list \<Rightarrow> 16 word HeaderResult" where
  "rfc5389_ParseHeader data =
     (if length data < 20 then NOT_ENOUGH_DATA
      else if (data ! 0) AND 0xC0 \<noteq> 0 then INVALID_DATA
      else
        let message_length = be16 (data ! 2) (data ! 3) in
        if message_length AND 3 \<noteq> 0 then INVALID_DATA
        else if [data ! 4, data ! 5, data ! 6, data ! 7] \<noteq> [0x21, 0x12, 0xA4, 0x42]
        then INVALID_DATA
        else if length data < 20 + unat message_length then NOT_ENOUGH_DATA
        else Parsed message_length)"

text \<open>
  Modelled from the spec: the channel-data decoder \<open>ChannelDataMessage::LoadHeader\<close> is not
  part of the sources. The spec (section 6) gives the wire format: a channel number in
  0x4000..0x7FFF, a 16-bit payload length, the payload, padding to a 4-byte boundary; the
  packet length counts the 4-byte header and the padded payload.
\<close>

definition rfc5766_LoadHeader :: "byte list \<Rightarrow> 32 word HeaderResult" where
  "rfc5766_LoadHeader data =
     (if length data < 4 then NOT_ENOUGH_DATA
      else
        let channel = be16 (data ! 0) (data ! 1);
            data_length = unat (be16 (data ! 2) (data ! 3));
            packet_length = 4 + ((data_length + 3) div 4) * 4
        in if channel < 0x4000 \<or> 0x7FFF < channel then INVALID_DATA
           else if length data < packet_length then NOT_ENOUGH_DATA
           else Parsed (of_nat packet_length))"

definition rfc_collaborators :: collaborators where
  "rfc_collaborators =
     \<lparr>FindPacketType = rfc7983_FindPacketType,
      StunParseHeader = rfc5389_ParseHeader,
      ChannelLoadHeader = rfc5766_LoadHeader\<rparr>"

section \<open>The ICE candidate (ice_candidate.h)\<close>

subsection \<open>Data model\<close>

text \<open>\<open>enum class TcpCandidateType\<close>; its first value, None, is written NoneType here.\<close>

datatype TcpCandidateType = NoneType | Active | Passive | So

text \<open>
  \<open>std::map<ov::String, ov::String>\<close>, the type of \<open>_extension_attributes\<close>: one value
  per key, iterated in ascending order of the keys. It is modelled as the list of its entries
  in iteration order; strings are compared byte by byte. \<open>std_map_assign\<close> is the assignment
  \<open>m[key] = value\<close>.
\<close>

type_synonym std_map = "(string \<times> string) list"

fun std_map_assign :: "string \<Rightarrow> string \<Rightarrow> std_map \<Rightarrow> std_map" where
  "std_map_assign k v [] = [(k, v)]"
| "std_map_assign k v ((k', v') # m) =
     (if k < k' then (k, v) # (k', v') # m
      else if k = k' then (k, v) # m
      else (k', v') # std_map_assign k v m)"

text \<open>
  The protected fields of \<open>class IceCandidate\<close>. \<open>_port\<close> is an \<open>int\<close>: 32 bits,
  read as a signed number with \<open>sint\<close>. The field \<open>_address\<close>, of the type
  \<open>ov::SocketAddress\<close> that is not part of the sources, is left out: it is the resolved form
  of \<open>_address_str\<close> and \<open>_port\<close>.
\<close>

record IceCandidate =
  foundation :: string
  component_id :: "32 word"
  transport :: string
  priority :: "32 word"
  address_str :: string
  port :: "32 word"
  candidate_types :: string
  rel_addr :: string
  rel_port :: "16 word"
  extension_attributes :: std_map
  tcp_type :: TcpCandidateType

text \<open>
  Modelled from the spec: the constructor \<open>IceCandidate(transport, address, port)\<close> is only
  declared in ice_candidate.h. The spec (section 4.2) gives the defaults of the other fields:
  foundation "0", component_id 1, priority 0, candidate type "host", tcp_type None; no related
  address and no extension.
\<close>

definition IceCandidate_of :: "string \<Rightarrow> string \<Rightarrow> 32 word \<Rightarrow> IceCandidate" where
  "IceCandidate_of transport_name address port_number =
     \<lparr>foundation = ''0'', component_id = 1, transport = transport_name, priority = 0,
      address_str = address, port = port_number, candidate_types = ''host'',
      rel_addr = [], rel_port = 0, extension_attributes = [], tcp_type = NoneType\<rparr>"

subsection \<open>Extension attributes\<close>

definition GetExtensionAttributes :: "IceCandidate \<Rightarrow> std_map" where
  "GetExtensionAttributes c = extension_attributes c"

text \<open>
  Modelled from the spec: \<open>AddExtensionAttributes(key, value)\<close> is only declared in
  ice_candidate.h. The spec has it add the pair to the extensions of the candidate; the
  container it adds to is the \<open>std::map\<close> of the header, where a key that is present keeps
  a single entry, which takes the new value.
\<close>

definition AddExtensionAttributes :: "string \<Rightarrow> string \<Rightarrow> IceCandidate \<Rightarrow> IceCandidate" where
  "AddExtensionAttributes key val c =
     c\<lparr>extension_attributes := std_map_assign key val (extension_attributes c)\<rparr>"

text \<open>Adding a list of pairs, the first pair of the list first.\<close>

fun AddAllExtensionAttributes :: "(string \<times> string) list \<Rightarrow> IceCandidate \<Rightarrow> IceCandidate" where
  "AddAllExtensionAttributes [] c = c"
| "AddAllExtensionAttributes ((k, v) # ps) c =
     AddAllExtensionAttributes ps (AddExtensionAttributes k v c)"

subsection \<open>Priority\<close>

text \<open>
  Modelled from the spec: \<open>CalculatePriority\<close> is only declared in ice_candidate.h. The spec
  (section 4.2, RFC 5245 section 4.1.2.1) gives
  priority = 2^24 * type_preference + 2^8 * local_preference + (256 - component_id),
  on the \<open>uint32_t\<close> arguments of the declaration, in 32-bit unsigned arithmetic.
\<close>

definition CalculatePriority :: "32 word \<Rightarrow> 32 word \<Rightarrow> 32 word \<Rightarrow> 32 word" where
  "CalculatePriority type_preference local_preference component =
     2 ^ 24 * type_preference + 2 ^ 8 * local_preference + (256 - component)"

subsection \<open>Parsing and emitting the SDP candidate line\<close>

text \<open>
  Modelled from the spec: \<open>ParseFromString\<close>, \<open>GetCandidateString\<close> and \<open>ToString\<close>
  are only declared in ice_candidate.h, together with the grammar of RFC 5245 section 15.1 in
  the comment of the class. The definitions of this subsection follow section 4.2 of the
  spec ("Grammar accepted", "Serialization order") and its section 7 (what makes a line
  malformed).
\<close>

text \<open>
  Modelled from the spec: numeric fields are one or more ASCII digits (a field that is not
  made of digits makes the line malformed); they are emitted in decimal. The value of the
  digits is stored in the field of the class, of 32 or 16 bits, where a value beyond the
  width wraps around; the port, a signed field, is emitted with its sign.
\<close>

definition is_digit :: "char \<Rightarrow> bool" where
  "is_digit ch = (48 \<le> (of_char ch :: nat) \<and> (of_char ch :: nat) \<le> 57)"

fun digits_value :: "string \<Rightarrow> nat \<Rightarrow> nat" where
  "digits_value [] acc = acc"
| "digits_value (ch # cs) acc = digits_value cs (acc * 10 + ((of_char ch :: nat) - 48))"

definition ToNumber :: "string \<Rightarrow> nat option" where
  "ToNumber s = (if s \<noteq> [] \<and> list_all is_digit s then Some (digits_value s 0) else None)"

fun DecimalString :: "nat \<Rightarrow> string" where
  "DecimalString n =
     (if n < 10 then [char_of (48 + n)]
      else DecimalString (n div 10) @ [char_of (48 + n mod 10)])"

declare DecimalString.simps [simp del]

definition IntString :: "int \<Rightarrow> string" where
  "IntString i = (if i < 0 then CHR ''-'' # DecimalString (nat (- i)) else DecimalString (nat i))"

text \<open>
  Modelled from the spec: every separator is a single ASCII space, so every space ends a
  token.
\<close>

fun Split :: "string \<Rightarrow> string list" where
  "Split [] = [[]]"
| "Split (ch # cs) =
     (if ch = CHR '' '' then [] # Split cs
      else (case Split cs of [] \<Rightarrow> [[ch]] | t # ts \<Rightarrow> (ch # t) # ts))"

fun Join :: "string list \<Rightarrow> string" where
  "Join [] = []"
| "Join [t] = t"
| "Join (t # ts) = t @ CHR '' '' # Join ts"

text \<open>
  Modelled from the spec: the transport is matched without regard to case and emitted in
  upper case.
\<close>

definition to_upper :: "char \<Rightarrow> char" where
  "to_upper ch =
     (if 97 \<le> (of_char ch :: nat) \<and> (of_char ch :: nat) \<le> 122
      then char_of ((of_char ch :: nat) - 32) else ch)"

definition IsTcpTransport :: "string \<Rightarrow> bool" where
  "IsTcpTransport t = (map to_upper t = ''TCP'')"

text \<open>
  Modelled from the spec: a candidate type is host, srflx, prflx, relay or an extension token;
  all of them are tokens in the sense of RFC 3261: a non-empty
  string of letters, digits and the marks - . ! % * _ + ` ' ~.
\<close>

definition is_token_char :: "char \<Rightarrow> bool" where
  "is_token_char ch =
     ((48 \<le> (of_char ch :: nat) \<and> (of_char ch :: nat) \<le> 57)
      \<or> (65 \<le> (of_char ch :: nat) \<and> (of_char ch :: nat) \<le> 90)
      \<or> (97 \<le> (of_char ch :: nat) \<and> (of_char ch :: nat) \<le> 122)
      \<or> ch \<in> set ''-.!%*_+`~'' \<or> (of_char ch :: nat) = 39)"

definition is_candidate_type :: "string \<Rightarrow> bool" where
  "is_candidate_type t = (t \<noteq> [] \<and> list_all is_token_char t)"

text \<open>
  Modelled from the spec: the optional related address and the optional related port, in
  this order, after the candidate type.
\<close>

definition take_raddr :: "string list \<Rightarrow> string \<times> string list" where
  "take_raddr ts =
     (case ts of
        k # v # rest \<Rightarrow> if k = ''raddr'' then (v, rest) else ([], ts)
      | _ \<Rightarrow> ([], ts))"

definition take_rport :: "string list \<Rightarrow> (16 word \<times> string list) option" where
  "take_rport ts =
     (case ts of
        k # v # rest \<Rightarrow>
          if k = ''rport''
          then (case ToNumber v of None \<Rightarrow> None | Some n \<Rightarrow> Some (of_nat n, rest))
          else Some (0, ts)
      | _ \<Rightarrow> Some (0, ts))"

text \<open>
  Modelled from the spec: the remaining tokens are paired into (name, value); an odd number
  of them is an error.
\<close>

fun pair_up :: "string list \<Rightarrow> (string \<times> string) list option" where
  "pair_up [] = Some []"
| "pair_up [k] = None"
| "pair_up (k # v # rest) = (case pair_up rest of None \<Rightarrow> None | Some ps \<Rightarrow> Some ((k, v) # ps))"

text \<open>
  Modelled from the spec: for a TCP candidate the extension tcptype, with the value active,
  passive or so, decides the TCP candidate type; the extension stays in the map.
\<close>

definition tcp_type_of :: "string \<Rightarrow> std_map \<Rightarrow> TcpCandidateType" where
  "tcp_type_of transport_name exts =
     (if IsTcpTransport transport_name then
        (case map_of exts ''tcptype'' of
           None \<Rightarrow> NoneType
         | Some v \<Rightarrow> if v = ''active'' then Active
                     else if v = ''passive'' then Passive
                     else if v = ''so'' then So
                     else NoneType)
      else NoneType)"

text \<open>
  Modelled from the spec: parsing the tokens of a line: foundation, component-id, transport, priority, address, port,
  the word typ, the candidate type, then the optional raddr and rport, then the extension
  pairs, which are added to the map one after the other. Fewer than eight tokens, a number
  that is not made of digits, a word other than typ, a candidate type that is not a token and
  an odd number of extension tokens make the line malformed. A field that is absent from the
  line is empty, or 0.
\<close>

definition ParseTokens :: "string list \<Rightarrow> IceCandidate option" where
  "ParseTokens ts =
     (case ts of
        f # cid # tr # pr # addr # po # typ # ct # rest \<Rightarrow>
          (case (ToNumber cid, ToNumber pr, ToNumber po) of
             (Some component, Some prio, Some port_number) \<Rightarrow>
               if typ \<noteq> ''typ'' \<or> \<not> is_candidate_type ct then None
               else
                 (case take_rport (snd (take_raddr rest)) of
                    None \<Rightarrow> None
                  | Some (rp, rest') \<Rightarrow>
                      (case pair_up rest' of
                         None \<Rightarrow> None
                       | Some ps \<Rightarrow>
                           let c = AddAllExtensionAttributes ps
                                (\<lparr>foundation = f, component_id = of_nat component, transport = tr,
                                  priority = of_nat prio, address_str = addr,
                                  port = of_nat port_number, candidate_types = ct,
                                  rel_addr = fst (take_raddr rest), rel_port = rp,
                                  extension_attributes = [], tcp_type = NoneType\<rparr>)
                           in Some (c\<lparr>tcp_type := tcp_type_of tr (extension_attributes c)\<rparr>)))
           | _ \<Rightarrow> None)
      | _ \<Rightarrow> None)"

definition strip_candidate_prefix :: "string \<Rightarrow> string" where
  "strip_candidate_prefix s =
     (if take 10 s = ''candidate:'' then drop 10 s else s)"

definition ParseFromString :: "string \<Rightarrow> IceCandidate option" where
  "ParseFromString candidate_string = ParseTokens (Split (strip_candidate_prefix candidate_string))"

text \<open>
  Modelled from the spec: emitting the eight leading fields with the transport in upper case, then raddr and rport
  together when the related address is not empty, then every entry of the extension map,
  name before value, in the order the map iterates. The prefix candidate: is always emitted.
\<close>

definition CandidateTokens :: "IceCandidate \<Rightarrow> string list" where
  "CandidateTokens c =
     [foundation c, DecimalString (unat (component_id c)), map to_upper (transport c),
      DecimalString (unat (priority c)), address_str c, IntString (sint (port c)),
      ''typ'', candidate_types c]
     @ (if rel_addr c \<noteq> []
        then [''raddr'', rel_addr c, ''rport'', DecimalString (unat (rel_port c))] else [])
     @ concat (map (\<lambda>(k, v). [k, v]) (extension_attributes c))"

definition GetCandidateString :: "IceCandidate \<Rightarrow> string" where
  "GetCandidateString c = ''candidate:'' @ Join (CandidateTokens c)"

section \<open>Verification of the demultiplexer\<close>

subsection \<open>Auxiliary facts\<close>

lemma be_or_is_add:
  "push_bit 8 (ucast (a::byte) :: 16 word) OR (ucast (b::byte) :: 16 word) = push_bit 8 (ucast a) + ucast b"
proof -
  have "\<not> bit (push_bit 8 (ucast a :: 16 word)) n \<or> \<not> bit (ucast b :: 16 word) n" for n
    by (auto simp: bit_push_bit_iff bit_ucast_iff dest: bit_imp_le_length)
  then show ?thesis
    by (simp add: disjunctive_add)
qed

lemma unat_be_add:
  "unat (push_bit 8 (ucast (a::byte) :: 16 word) + (ucast (b::byte) :: 16 word)) = unat a * 256 + unat b"
proof -
  have a: "unat a < 256" using unsigned_less [of a] by simp
  have b: "unat b < 256" using unsigned_less [of b] by simp
  have ua: "unat (ucast a :: 16 word) = unat a" and ub: "unat (ucast b :: 16 word) = unat b"
    using a b by (simp_all add: unsigned_ucast_eq take_bit_nat_eq_self)
  show ?thesis using a b
    by (simp add: push_bit_eq_mult unat_word_ariths ua ub)
qed

lemma unat_frame_length_of:
  "unat (frame_length_of data) = unat (data ! 0) * 256 + unat (data ! 1)"
  unfolding frame_length_of_def by (simp only: be_or_is_add unat_be_add)

lemma frame_length_of_less_20:
  "(frame_length_of data < 20) = (unat (data ! 0) * 256 + unat (data ! 1) < 20)"
  by (simp add: word_less_nat_alt unat_frame_length_of)

lemma ExtractRfc4571Frame_keeps:
  "ExtractRfc4571Frame c d = (r, d') \<Longrightarrow>
     connection_type d' = connection_type d \<and> prefix (packets d) (packets d')"
  by (auto simp: ExtractRfc4571Frame_def Let_def split: if_splits)

lemma ExtractStunMessage_keeps:
  "ExtractStunMessage c d = (r, d') \<Longrightarrow>
     connection_type d' = connection_type d \<and> prefix (packets d) (packets d')"
  by (auto simp: ExtractStunMessage_def Let_def split: HeaderResult.splits)

lemma ExtractChannelMessage_keeps:
  "ExtractChannelMessage c d = (r, d') \<Longrightarrow>
     connection_type d' = connection_type d \<and> prefix (packets d) (packets d')"
  by (auto simp: ExtractChannelMessage_def Let_def split: HeaderResult.splits)

lemma ParseData_IceTcpDirect_keeps:
  "ParseData_IceTcpDirect c d = (r, d') \<Longrightarrow>
     connection_type d' = connection_type d \<and> prefix (packets d) (packets d')"
proof (induction c d rule: ParseData_IceTcpDirect.induct)
  case (1 c d)
  obtain r1 d1 where e: "ExtractRfc4571Frame c d = (r1, d1)"
    by (cases "ExtractRfc4571Frame c d")
  note k = ExtractRfc4571Frame_keeps [OF e]
  show ?case
  proof (cases "RFC4571_HEADER_SIZE \<le> length (buffer d) \<and> r1 = SUCCESS")
    case True
    with "1.prems" e have "ParseData_IceTcpDirect c d1 = (r, d')"
      by (subst (asm) ParseData_IceTcpDirect.simps) simp
    with "1.IH" True e have "connection_type d' = connection_type d1 \<and> prefix (packets d1) (packets d')"
      by simp
    with k show ?thesis by (auto intro: prefix_order.trans)
  next
    case False
    with "1.prems" e k show ?thesis
      by (subst (asm) ParseData_IceTcpDirect.simps) (auto split: if_splits)
  qed
qed

lemma ParseData_TurnRelay_keeps_snd:
  assumes "ParseData_TurnRelay c d = Some y"
  shows "connection_type (snd y) = connection_type d \<and> prefix (packets d) (packets (snd y))"
proof (rule ParseData_TurnRelay.raw_induct
    [where P = "\<lambda>c d y. connection_type (snd y) = connection_type d \<and> prefix (packets d) (packets (snd y))",
     OF _ assms], goal_cases)
  case (1 loop c d y)
  obtain r1 d1 where s: "ExtractStunMessage c d = (r1, d1)"
    by (cases "ExtractStunMessage c d")
  obtain r2 d2 where ch: "ExtractChannelMessage c d = (r2, d2)"
    by (cases "ExtractChannelMessage c d")
  note ks = ExtractStunMessage_keeps [OF s]
  note kc = ExtractChannelMessage_keeps [OF ch]
  from 1(2) s ch consider
      (stun) "loop c d1 = Some y"
    | (chan) "loop c d2 = Some y"
    | (stop1) "snd y = d1" | (stop2) "snd y = d2" | (stop) "snd y = d"
    by (auto split: if_splits)
  then show ?case
  proof cases
    case stun
    from 1(1) [OF stun] ks show ?thesis by (auto intro: prefix_order.trans)
  next
    case chan
    from 1(1) [OF chan] kc show ?thesis by (auto intro: prefix_order.trans)
  qed (use ks kc in auto)
qed

lemma ParseData_TurnRelay_keeps:
  "ParseData_TurnRelay c d = Some (r, d') \<Longrightarrow>
     connection_type d' = connection_type d \<and> prefix (packets d) (packets d')"
  using ParseData_TurnRelay_keeps_snd [of c d "(r, d')"] by simp

lemma DetectConnectionType_cases:
  "DetectConnectionType d = (False, d)
   \<or> DetectConnectionType d = (True, d\<lparr>connection_type := IceTcpDirect\<rparr>)
   \<or> DetectConnectionType d = (True, d\<lparr>connection_type := TurnRelay\<rparr>)"
  unfolding DetectConnectionType_def Let_def by (simp only: split: if_splits) blast

lemma ParseData_frames_keeps:
  assumes "ParseData_frames c d = Some (r, d')"
  shows "connection_type d' = connection_type d \<and> prefix (packets d) (packets d')"
proof (cases "connection_type d = IceTcpDirect")
  case True
  with assms have "ParseData_IceTcpDirect c d = (r, d')"
    by (simp add: ParseData_frames_def)
  then show ?thesis by (rule ParseData_IceTcpDirect_keeps)
next
  case False
  with assms have "ParseData_TurnRelay c d = Some (r, d')"
    by (simp add: ParseData_frames_def)
  then show ?thesis by (rule ParseData_TurnRelay_keeps)
qed

lemma ParseData_cases:
  "ParseData c d = ParseData_frames c d
   \<or> ParseData c d = Some (True, d)
   \<or> (connection_type d = Unknown \<and>
       (ParseData c d = ParseData_frames c (d\<lparr>connection_type := IceTcpDirect\<rparr>)
        \<or> ParseData c d = ParseData_frames c (d\<lparr>connection_type := TurnRelay\<rparr>)))"
proof (cases "connection_type d = Unknown")
  case False
  then show ?thesis by (simp add: ParseData_def)
next
  case True
  from DetectConnectionType_cases [of d] show ?thesis
  proof (elim disjE)
    assume "DetectConnectionType d = (False, d)"
    with True show ?thesis by (simp add: ParseData_def)
  next
    assume "DetectConnectionType d = (True, d\<lparr>connection_type := IceTcpDirect\<rparr>)"
    with True show ?thesis by (simp add: ParseData_def)
  next
    assume "DetectConnectionType d = (True, d\<lparr>connection_type := TurnRelay\<rparr>)"
    with True show ?thesis by (simp add: ParseData_def)
  qed
qed

lemma ParseData_keeps_packets:
  assumes "ParseData c d = Some (r, d')"
  shows "prefix (packets d) (packets d')"
  using ParseData_cases [of c d] assms
    ParseData_frames_keeps [of c d r d']
    ParseData_frames_keeps [of c "d\<lparr>connection_type := IceTcpDirect\<rparr>" r d']
    ParseData_frames_keeps [of c "d\<lparr>connection_type := TurnRelay\<rparr>" r d']
  by (elim disjE conjE) simp_all

lemma ParseData_keeps_type:
  assumes "ParseData c d = Some (r, d')"
  shows "connection_type d' = connection_type d
      \<or> (connection_type d = Unknown \<and> (connection_type d' = TurnRelay \<or> connection_type d' = IceTcpDirect))"
  using ParseData_cases [of c d] assms
    ParseData_frames_keeps [of c d r d']
    ParseData_frames_keeps [of c "d\<lparr>connection_type := IceTcpDirect\<rparr>" r d']
    ParseData_frames_keeps [of c "d\<lparr>connection_type := TurnRelay\<rparr>" r d']
  by (elim disjE conjE) simp_all

lemma frame_length_of_bound: "unat (frame_length_of data) \<le> 65535"
  using unsigned_less [of "frame_length_of data", where 'a = nat] by simp

lemma ExtractRfc4571Frame_SUCCESS:
  assumes "2 + (unat (buffer d ! 0) * 256 + unat (buffer d ! 1)) \<le> length (buffer d)"
    and "20 \<le> unat (buffer d ! 0) * 256 + unat (buffer d ! 1)"
  shows "ExtractRfc4571Frame c d =
     (SUCCESS,
      d\<lparr>buffer := drop (2 + (unat (buffer d ! 0) * 256 + unat (buffer d ! 1))) (buffer d),
        packets := packets d @
          [\<lparr>p_type = FindPacketType c (take (unat (buffer d ! 0) * 256 + unat (buffer d ! 1)) (drop 2 (buffer d))),
            p_data = take (unat (buffer d ! 0) * 256 + unat (buffer d ! 1)) (drop 2 (buffer d))\<rparr>]\<rparr>)"
proof -
  define L where "L = unat (buffer d ! 0) * 256 + unat (buffer d ! 1)"
  have u: "unat (frame_length_of (buffer d)) = L"
    by (simp add: L_def unat_frame_length_of)
  have n: "\<not> frame_length_of (buffer d) < 20"
    using assms(2) by (simp add: frame_length_of_less_20)
  have b: "\<not> 65535 < L"
    using frame_length_of_bound [of "buffer d"] u by simp
  have l: "\<not> length (buffer d) < 2" "\<not> length (buffer d) < 2 + L"
    using assms(1) by (simp_all add: L_def)
  show ?thesis
    unfolding ExtractRfc4571Frame_def Let_def RFC4571_HEADER_SIZE_def Subdata_def SubdataFrom_def
      u L_def [symmetric]
    using n b l by simp
qed

lemma ExtractRfc4571Frame_FAILED:
  assumes "2 \<le> length (buffer d)"
    and "unat (buffer d ! 0) * 256 + unat (buffer d ! 1) < 20"
  shows "ExtractRfc4571Frame c d = (FAILED, d)"
proof -
  have n: "frame_length_of (buffer d) < 20"
    using assms(2) by (simp add: frame_length_of_less_20)
  show ?thesis
    unfolding ExtractRfc4571Frame_def Let_def RFC4571_HEADER_SIZE_def
    using n assms(1) by simp
qed

lemma ExtractRfc4571Frame_NOT_ENOUGH:
  assumes "2 \<le> length (buffer d)"
    and "20 \<le> unat (buffer d ! 0) * 256 + unat (buffer d ! 1)"
    and "length (buffer d) < 2 + (unat (buffer d ! 0) * 256 + unat (buffer d ! 1))"
  shows "ExtractRfc4571Frame c d = (NOT_ENOUGH_BUFFER, d)"
proof -
  define L where "L = unat (buffer d ! 0) * 256 + unat (buffer d ! 1)"
  have u: "unat (frame_length_of (buffer d)) = L"
    by (simp add: L_def unat_frame_length_of)
  have n: "\<not> frame_length_of (buffer d) < 20"
    using assms(2) by (simp add: frame_length_of_less_20)
  have b: "\<not> 65535 < L"
    using frame_length_of_bound [of "buffer d"] u by simp
  have l: "\<not> length (buffer d) < 2" "length (buffer d) < 2 + L"
    using assms(1,3) by (simp_all add: L_def)
  show ?thesis
    unfolding ExtractRfc4571Frame_def Let_def RFC4571_HEADER_SIZE_def u
    using n b l by simp
qed

lemma PopPackets_take:
  "n \<le> length (packets d) \<Longrightarrow> fst (PopPackets n d) = map Some (take n (packets d))"
proof (induction n arbitrary: d)
  case 0
  then show ?case by simp
next
  case (Suc n)
  then obtain p ps where ps: "packets d = p # ps"
    by (cases "packets d") auto
  with Suc.prems have "n \<le> length (packets (d\<lparr>packets := ps\<rparr>))" by simp
  from Suc.IH [OF this] ps show ?case
    by (cases "PopPackets n (d\<lparr>packets := ps\<rparr>)")
       (simp add: PopPacket_def IsAvailablePacket_def)
qed

lemma ParseData_IceTcpDirect_FAILED:
  assumes "2 \<le> length (buffer d)"
    and "unat (buffer d ! 0) * 256 + unat (buffer d ! 1) < 20"
  shows "ParseData_IceTcpDirect c d = (False, d)"
  using assms ExtractRfc4571Frame_FAILED [OF assms, of c]
  by (subst ParseData_IceTcpDirect.simps) (simp add: RFC4571_HEADER_SIZE_def)

lemma ParseData_IceTcpDirect_NOT_ENOUGH:
  assumes "2 \<le> length (buffer d)"
    and "20 \<le> unat (buffer d ! 0) * 256 + unat (buffer d ! 1)"
    and "length (buffer d) < 2 + (unat (buffer d ! 0) * 256 + unat (buffer d ! 1))"
  shows "ParseData_IceTcpDirect c d = (True, d)"
  using assms ExtractRfc4571Frame_NOT_ENOUGH [OF assms, of c]
  by (subst ParseData_IceTcpDirect.simps) (simp add: RFC4571_HEADER_SIZE_def)

lemma AppendData_known_type:
  "connection_type d \<noteq> Unknown \<Longrightarrow>
     AppendData c d data = ParseData_frames c (d\<lparr>buffer := buffer d @ data\<rparr>)"
  by (simp add: AppendData_def ParseData_def)

lemma apply_operation_type:
  assumes "apply_operation c d x = Some d'" and "\<not> is_SetConnectionType x"
  shows "connection_type d' = connection_type d
      \<or> (connection_type d = Unknown
          \<and> (connection_type d' = TurnRelay \<or> connection_type d' = IceTcpDirect))"
proof (cases x)
  case (OpAppendData data)
  with assms(1) obtain r where "ParseData c (d\<lparr>buffer := buffer d @ data\<rparr>) = Some (r, d')"
    by (auto simp: AppendData_def)
  from ParseData_keeps_type [OF this] show ?thesis by simp
next
  case OpPopPacket
  with assms(1) show ?thesis by (auto simp: PopPacket_def split: if_splits)
qed (use assms in auto)

subsection \<open>Chunking and detection\<close>

text \<open>
  C1. Chunk invariance asks that feeding a byte sequence in chunks yields the same packets as
  feeding it in one call, when no call fails. The run below feeds the same 22 bytes once whole
  and once split after the second byte. Whole, the three first bytes select ICE-TCP Direct and
  the frame's 20-byte payload is the packet. Split, the first call sees two bytes, the first
  of them 0, and DetectConnectionType settles on TURN relay; the second call then reads the
  bytes from offset 0 as a bare STUN message. Both runs return true throughout, and the
  packets differ.
\<close>

theorem chunked_and_whole_differ:
  "AppendChunks rfc_collaborators IceTcpDemultiplexer
     [[0, 20, 0, 0, 33, 18, 164, 66, 1, 2, 3, 4, 5, 6, 7, 8, 9, 10, 11, 12, 13, 14]]
   = Some (True,
       \<lparr>buffer = [],
        packets = [\<lparr>p_type = STUN,
                    p_data = [0, 0, 33, 18, 164, 66, 1, 2, 3, 4, 5, 6, 7, 8, 9, 10, 11, 12, 13, 14]\<rparr>],
        connection_type = IceTcpDirect\<rparr>)
   \<and> AppendChunks rfc_collaborators IceTcpDemultiplexer
     [[0, 20], [0, 0, 33, 18, 164, 66, 1, 2, 3, 4, 5, 6, 7, 8, 9, 10, 11, 12, 13, 14]]
   = Some (True,
       \<lparr>buffer = [13, 14],
        packets = [\<lparr>p_type = STUN,
                    p_data = [0, 20, 0, 0, 33, 18, 164, 66, 1, 2, 3, 4, 5, 6, 7, 8, 9, 10, 11, 12]\<rparr>],
        connection_type = TurnRelay\<rparr>)"
proof -
  have h: "rfc5389_ParseHeader
      [0, 20, 0, 0, 33, 18, 164, 66, 1, 2, 3, 4, 5, 6, 7, 8, 9, 10, 11, 12, 13, 14] = Parsed 0"
    by (simp add: rfc5389_ParseHeader_def be16_def)
  have whole: "AppendChunks rfc_collaborators IceTcpDemultiplexer
     [[0, 20, 0, 0, 33, 18, 164, 66, 1, 2, 3, 4, 5, 6, 7, 8, 9, 10, 11, 12, 13, 14]]
   = Some (True,
       \<lparr>buffer = [],
        packets = [\<lparr>p_type = STUN,
                    p_data = [0, 0, 33, 18, 164, 66, 1, 2, 3, 4, 5, 6, 7, 8, 9, 10, 11, 12, 13, 14]\<rparr>],
        connection_type = IceTcpDirect\<rparr>)"
    by (simp add: IceTcpDemultiplexer_def AppendData_def ParseData_def DetectConnectionType_def
        ParseData_frames_def ParseData_IceTcpDirect.simps ExtractRfc4571Frame_SUCCESS
        RFC4571_HEADER_SIZE_def rfc_collaborators_def rfc7983_FindPacketType_def)
  have chunked: "AppendChunks rfc_collaborators IceTcpDemultiplexer
     [[0, 20], [0, 0, 33, 18, 164, 66, 1, 2, 3, 4, 5, 6, 7, 8, 9, 10, 11, 12, 13, 14]]
   = Some (True,
       \<lparr>buffer = [13, 14],
        packets = [\<lparr>p_type = STUN,
                    p_data = [0, 20, 0, 0, 33, 18, 164, 66, 1, 2, 3, 4, 5, 6, 7, 8, 9, 10, 11, 12]\<rparr>],
        connection_type = TurnRelay\<rparr>)"
    by (simp add: IceTcpDemultiplexer_def AppendData_def ParseData_def DetectConnectionType_def
        ParseData_frames_def ParseData_TurnRelay.simps ExtractStunMessage_def h
        DefaultHeaderLength_def Subdata_def SubdataFrom_def
        RFC4571_HEADER_SIZE_def MINIMUM_PACKET_HEADER_SIZE_def
        rfc_collaborators_def rfc7983_FindPacketType_def)
  from whole chunked show ?thesis by (rule conjI)
qed

text \<open>
  C2. Detection is meant to wait for three bytes. After a first call with the two bytes
  00 44, the start of an RFC 4571 frame of 68 bytes, the connection type is already TurnRelay,
  whatever the collaborators are: DetectConnectionType returns early only below two bytes, and
  with exactly two bytes it falls through to the test of the first byte alone.
\<close>

theorem two_bytes_decide_TurnRelay:
  "AppendData c IceTcpDemultiplexer [0x00, 0x44]
     = Some (True, \<lparr>buffer = [0x00, 0x44], packets = [], connection_type = TurnRelay\<rparr>)"
  by (simp add: IceTcpDemultiplexer_def AppendData_def ParseData_def DetectConnectionType_def
      ParseData_frames_def ParseData_TurnRelay.simps RFC4571_HEADER_SIZE_def
      MINIMUM_PACKET_HEADER_SIZE_def)

subsection \<open>The connection type over the lifetime of an instance\<close>

text \<open>
  C3, as amended. Over any sequence of the public operations other than SetConnectionType
  that returns, a connection type that is not Unknown stays what it is, and a connection type
  that changes goes from Unknown to TurnRelay or to IceTcpDirect. The statement is about an
  arbitrary starting state, so it covers every observation made along a sequence.
\<close>

theorem connection_type_monotone:
  assumes "apply_operations c d ops = Some d'"
    and "\<forall>x \<in> set ops. \<not> is_SetConnectionType x"
  shows "(GetConnectionType d \<noteq> Unknown \<longrightarrow> GetConnectionType d' = GetConnectionType d)
       \<and> (GetConnectionType d' \<noteq> GetConnectionType d \<longrightarrow>
            GetConnectionType d = Unknown
            \<and> (GetConnectionType d' = TurnRelay \<or> GetConnectionType d' = IceTcpDirect))"
  using assms
proof (induction ops arbitrary: d)
  case Nil
  then show ?case by simp
next
  case (Cons x xs)
  from Cons.prems(1) obtain d1 where x: "apply_operation c d x = Some d1"
    and xs: "apply_operations c d1 xs = Some d'"
    by (auto split: option.splits)
  from Cons.prems(2) have nx: "\<not> is_SetConnectionType x"
    and nxs: "\<forall>x \<in> set xs. \<not> is_SetConnectionType x"
    by simp_all
  from apply_operation_type [OF x nx] Cons.IH [OF xs nxs] show ?case
    unfolding GetConnectionType_def by auto
qed

theorem connection_type_monotone_witness:
  "apply_operations rfc_collaborators IceTcpDemultiplexer
     [OpAppendData [0, 20], OpGetConnectionType, OpAppendData [0], OpPopPacket]
     = Some \<lparr>buffer = [0, 20, 0], packets = [], connection_type = TurnRelay\<rparr>
   \<and> GetConnectionType IceTcpDemultiplexer = Unknown
   \<and> apply_operations rfc_collaborators
        \<lparr>buffer = [0, 20, 0], packets = [], connection_type = IceTcpDirect\<rparr>
        [OpAppendData [1], OpIsAvailablePacket, OpPopPacket, OpIsIceTcpDirect]
     = Some \<lparr>buffer = [0, 20, 0, 1], packets = [], connection_type = IceTcpDirect\<rparr>"
proof -
  have a: "apply_operations rfc_collaborators IceTcpDemultiplexer
     [OpAppendData [0, 20], OpGetConnectionType, OpAppendData [0], OpPopPacket]
     = Some \<lparr>buffer = [0, 20, 0], packets = [], connection_type = TurnRelay\<rparr>"
    by (simp add: IceTcpDemultiplexer_def AppendData_def ParseData_def DetectConnectionType_def
        ParseData_frames_def ParseData_TurnRelay.simps RFC4571_HEADER_SIZE_def
        MINIMUM_PACKET_HEADER_SIZE_def PopPacket_def IsAvailablePacket_def)
  have b: "apply_operations rfc_collaborators
        \<lparr>buffer = [0, 20, 0], packets = [], connection_type = IceTcpDirect\<rparr>
        [OpAppendData [1], OpIsAvailablePacket, OpPopPacket, OpIsIceTcpDirect]
     = Some \<lparr>buffer = [0, 20, 0, 1], packets = [], connection_type = IceTcpDirect\<rparr>"
    by (simp add: AppendData_def ParseData_def ParseData_frames_def ParseData_IceTcpDirect.simps
        ExtractRfc4571Frame_NOT_ENOUGH RFC4571_HEADER_SIZE_def PopPacket_def IsAvailablePacket_def)
  from connection_type_monotone [OF a] connection_type_monotone [OF b] a b show ?thesis
    by (simp add: GetConnectionType_def IceTcpDemultiplexer_def)
qed

text \<open>
  C3 as stated fails: SetConnectionType assigns the field without a check. After the
  connection type has been observed as IceTcpDirect, a call of SetConnectionType makes it
  TurnRelay, or Unknown again.
\<close>

theorem SetConnectionType_overwrites_counterexample:
  "apply_operations rfc_collaborators IceTcpDemultiplexer [OpAppendData [0, 20, 0]]
     = Some \<lparr>buffer = [0, 20, 0], packets = [], connection_type = IceTcpDirect\<rparr>
   \<and> apply_operations rfc_collaborators IceTcpDemultiplexer
       [OpAppendData [0, 20, 0], OpSetConnectionType TurnRelay]
     = Some \<lparr>buffer = [0, 20, 0], packets = [], connection_type = TurnRelay\<rparr>
   \<and> apply_operations rfc_collaborators IceTcpDemultiplexer
       [OpAppendData [0, 20, 0], OpSetConnectionType Unknown]
     = Some \<lparr>buffer = [0, 20, 0], packets = [], connection_type = Unknown\<rparr>"
  by (simp add: IceTcpDemultiplexer_def AppendData_def ParseData_def DetectConnectionType_def
      ParseData_frames_def ParseData_IceTcpDirect.simps ExtractRfc4571Frame_NOT_ENOUGH
      RFC4571_HEADER_SIZE_def SetConnectionType_def)

subsection \<open>RFC 4571 frames\<close>

text \<open>
  C4. In IceTcpDirect mode, with L the big-endian value of the first two bytes, 20 \<le> L and
  at least 2 + L bytes buffered, ExtractRfc4571Frame succeeds, appends to the queue exactly one
  packet whose data is buffer[2 .. 2+L] and whose type is what the classifier says of that
  data, and removes exactly the first 2 + L bytes from the buffer.
\<close>

theorem ExtractRfc4571Frame_extracts:
  assumes "connection_type d = IceTcpDirect"
    and "L = unat (buffer d ! 0) * 256 + unat (buffer d ! 1)"
    and "20 \<le> L"
    and "2 + L \<le> length (buffer d)"
  shows "ExtractRfc4571Frame c d =
     (SUCCESS,
      d\<lparr>buffer := drop (2 + L) (buffer d),
        packets := packets d @
          [\<lparr>p_type = FindPacketType c (take L (drop 2 (buffer d))),
            p_data = take L (drop 2 (buffer d))\<rparr>]\<rparr>)"
  using assms(3,4) unfolding assms(2) by (rule ExtractRfc4571Frame_SUCCESS [rotated])

theorem ExtractRfc4571Frame_extracts_witness:
  "ExtractRfc4571Frame rfc_collaborators
     \<lparr>buffer = [0, 20, 0, 1, 0, 0, 33, 18, 164, 66, 1, 2, 3, 4, 5, 6, 7, 8, 9, 10, 11, 12, 170],
      packets = [], connection_type = IceTcpDirect\<rparr>
   = (SUCCESS,
      \<lparr>buffer = [170],
       packets = [\<lparr>p_type = STUN,
                   p_data = [0, 1, 0, 0, 33, 18, 164, 66, 1, 2, 3, 4, 5, 6, 7, 8, 9, 10, 11, 12]\<rparr>],
       connection_type = IceTcpDirect\<rparr>)"
  using ExtractRfc4571Frame_extracts
    [of "\<lparr>buffer = [0, 20, 0, 1, 0, 0, 33, 18, 164, 66, 1, 2, 3, 4, 5, 6, 7, 8, 9, 10, 11, 12, 170],
          packets = [], connection_type = IceTcpDirect\<rparr>" 20 rfc_collaborators]
  by (simp add: rfc_collaborators_def rfc7983_FindPacketType_def)

text \<open>
  C5. In IceTcpDirect mode, let buf be the buffer once the data of a call of AppendData are
  appended, at least two bytes long, and L the big-endian value of its first two bytes. If
  L < 20 (L > 65535 cannot happen for 16 bits) the extractor returns FAILED and AppendData
  returns false. If L is valid and buf is shorter than 2 + L, AppendData returns true, every
  byte stays in the buffer and nothing is enqueued.
\<close>

theorem invalid_frame_length_is_fatal:
  assumes "connection_type d = IceTcpDirect"
    and "buf = buffer d @ data"
    and "2 \<le> length buf"
    and "L = unat (buf ! 0) * 256 + unat (buf ! 1)"
  shows "(L < 20 \<or> 65535 < L \<longrightarrow>
            fst (ExtractRfc4571Frame c (d\<lparr>buffer := buf\<rparr>)) = FAILED
            \<and> AppendData c d data = Some (False, d\<lparr>buffer := buf\<rparr>))
       \<and> (20 \<le> L \<and> length buf < 2 + L \<longrightarrow>
            AppendData c d data = Some (True, d\<lparr>buffer := buf\<rparr>))"
proof -
  define d1 where "d1 = d\<lparr>buffer := buf\<rparr>"
  have b: "buffer d1 = buf" and t: "connection_type d1 = IceTcpDirect"
    using assms(1) by (simp_all add: d1_def)
  have a: "AppendData c d data = Some (ParseData_IceTcpDirect c d1)"
    using assms(1,2) by (simp add: AppendData_known_type ParseData_frames_def d1_def)
  have big: "\<not> 65535 < L"
  proof -
    have "unat (buf ! 0) < 256" "unat (buf ! 1) < 256"
      using unsigned_less [of "buf ! 0", where 'a = nat] unsigned_less [of "buf ! 1", where 'a = nat]
      by simp_all
    then show ?thesis unfolding assms(4) by arith
  qed
  have "L < 20 \<Longrightarrow> ExtractRfc4571Frame c d1 = (FAILED, d1)"
    using assms(3,4) by (intro ExtractRfc4571Frame_FAILED) (simp_all add: b)
  moreover have "L < 20 \<Longrightarrow> ParseData_IceTcpDirect c d1 = (False, d1)"
    using assms(3,4) by (intro ParseData_IceTcpDirect_FAILED) (simp_all add: b)
  moreover have "20 \<le> L \<Longrightarrow> length buf < 2 + L \<Longrightarrow> ParseData_IceTcpDirect c d1 = (True, d1)"
    using assms(3,4) by (intro ParseData_IceTcpDirect_NOT_ENOUGH) (simp_all add: b)
  ultimately show ?thesis
    using big a unfolding d1_def [symmetric] by simp
qed

theorem invalid_frame_length_is_fatal_witness:
  "AppendData rfc_collaborators \<lparr>buffer = [0], packets = [], connection_type = IceTcpDirect\<rparr> [10, 1]
     = Some (False, \<lparr>buffer = [0, 10, 1], packets = [], connection_type = IceTcpDirect\<rparr>)
   \<and> AppendData rfc_collaborators \<lparr>buffer = [0], packets = [], connection_type = IceTcpDirect\<rparr> [20, 1]
     = Some (True, \<lparr>buffer = [0, 20, 1], packets = [], connection_type = IceTcpDirect\<rparr>)"
  using invalid_frame_length_is_fatal
     [of "\<lparr>buffer = [0], packets = [], connection_type = IceTcpDirect\<rparr>" "[0, 10, 1]" "[10, 1]" 10
         rfc_collaborators]
    invalid_frame_length_is_fatal
     [of "\<lparr>buffer = [0], packets = [], connection_type = IceTcpDirect\<rparr>" "[0, 20, 1]" "[20, 1]" 20
         rfc_collaborators]
  by simp

subsection \<open>TURN relay mode\<close>

text \<open>
  C6. In TurnRelay mode the loop applies the classifier to the head of the buffer whenever
  more than MINIMUM_PACKET_HEADER_SIZE bytes are buffered. When the label is neither STUN nor
  TURN_CHANNEL_DATA, the loop stops with false in the state it is in, at whatever iteration
  this happens, so no packet is enqueued for that head and the bytes stay buffered; and
  AppendData, which enters the loop with the appended buffer, returns false.
\<close>

theorem TurnRelay_rejects_other_types:
  assumes "connection_type d = TurnRelay"
    and "buf = buffer d @ data"
    and "MINIMUM_PACKET_HEADER_SIZE < length buf"
    and "FindPacketType c buf \<noteq> STUN"
    and "FindPacketType c buf \<noteq> TURN_CHANNEL_DATA"
  shows "ParseData_TurnRelay c (d\<lparr>buffer := buf\<rparr>) = Some (False, d\<lparr>buffer := buf\<rparr>)
       \<and> AppendData c d data = Some (False, d\<lparr>buffer := buf\<rparr>)"
proof -
  have a: "AppendData c d data = ParseData_TurnRelay c (d\<lparr>buffer := buf\<rparr>)"
    using assms(1,2) by (simp add: AppendData_known_type ParseData_frames_def)
  have "ParseData_TurnRelay c (d\<lparr>buffer := buf\<rparr>) = Some (False, d\<lparr>buffer := buf\<rparr>)"
    using assms(3,4,5) by (subst ParseData_TurnRelay.simps) simp
  with a show ?thesis by simp
qed

theorem TurnRelay_rejects_other_types_witness:
  "AppendData rfc_collaborators \<lparr>buffer = [255, 1], packets = [], connection_type = TurnRelay\<rparr> [2, 3, 4]
     = Some (False, \<lparr>buffer = [255, 1, 2, 3, 4], packets = [], connection_type = TurnRelay\<rparr>)"
  using TurnRelay_rejects_other_types
     [of "\<lparr>buffer = [255, 1], packets = [], connection_type = TurnRelay\<rparr>" "[255, 1, 2, 3, 4]"
         "[2, 3, 4]" rfc_collaborators]
  by (simp add: rfc_collaborators_def rfc7983_FindPacketType_def MINIMUM_PACKET_HEADER_SIZE_def)

subsection \<open>Packets already queued\<close>

lemma Extract_unchanged:
  "fst (ExtractRfc4571Frame c d) \<noteq> SUCCESS \<Longrightarrow> snd (ExtractRfc4571Frame c d) = d"
  "fst (ExtractStunMessage c d) \<noteq> SUCCESS \<Longrightarrow> snd (ExtractStunMessage c d) = d"
  "fst (ExtractChannelMessage c d) \<noteq> SUCCESS \<Longrightarrow> snd (ExtractChannelMessage c d) = d"
  by (auto simp: ExtractRfc4571Frame_def ExtractStunMessage_def ExtractChannelMessage_def Let_def
      split: if_splits HeaderResult.splits)

lemma Extract_one_packet:
  "fst (ExtractRfc4571Frame c d) = SUCCESS \<Longrightarrow>
     \<exists>p. packets (snd (ExtractRfc4571Frame c d)) = packets d @ [p]"
  "fst (ExtractStunMessage c d) = SUCCESS \<Longrightarrow>
     \<exists>p. packets (snd (ExtractStunMessage c d)) = packets d @ [p]"
  "fst (ExtractChannelMessage c d) = SUCCESS \<Longrightarrow>
     \<exists>p. packets (snd (ExtractChannelMessage c d)) = packets d @ [p]"
  by (auto simp: ExtractRfc4571Frame_def ExtractStunMessage_def ExtractChannelMessage_def Let_def
      split: if_splits HeaderResult.splits)

lemma extraction_step_one_packet:
  assumes "extraction_step c d = Some d1"
  shows "\<exists>p. packets d1 = packets d @ [p]"
  using assms Extract_one_packet [of c d]
  unfolding extraction_step_def by (auto split: if_splits)

lemma extraction_step_type:
  assumes "extraction_step c d = Some d1"
  shows "connection_type d1 = connection_type d"
proof -
  from assms consider "d1 = snd (ExtractRfc4571Frame c d)" | "d1 = snd (ExtractStunMessage c d)"
    | "d1 = snd (ExtractChannelMessage c d)"
    unfolding extraction_step_def by (auto split: if_splits)
  then show ?thesis
  proof cases
    case 1
    then show ?thesis using ExtractRfc4571Frame_keeps [of c d "fst (ExtractRfc4571Frame c d)" d1] by simp
  next
    case 2
    then show ?thesis using ExtractStunMessage_keeps [of c d "fst (ExtractStunMessage c d)" d1] by simp
  next
    case 3
    then show ?thesis using ExtractChannelMessage_keeps [of c d "fst (ExtractChannelMessage c d)" d1] by simp
  qed
qed

lemma extraction_steps_length:
  "extraction_steps n c d = Some d' \<Longrightarrow> length (packets d') = length (packets d) + n"
proof (induction n arbitrary: d)
  case 0
  then show ?case by simp
next
  case (Suc n)
  then obtain d1 where s: "extraction_step c d = Some d1" and r: "extraction_steps n c d1 = Some d'"
    by (auto split: option.splits)
  from extraction_step_one_packet [OF s] have "length (packets d1) = Suc (length (packets d))"
    by auto
  with Suc.IH [OF r] show ?case by simp
qed

lemma ParseData_IceTcpDirect_steps:
  assumes "connection_type d = IceTcpDirect"
  shows "\<exists>n. extraction_steps n c d = Some (snd (ParseData_IceTcpDirect c d))"
  using assms
proof (induction c d rule: ParseData_IceTcpDirect.induct)
  case (1 c d)
  show ?case
  proof (cases "RFC4571_HEADER_SIZE \<le> length (buffer d) \<and> fst (ExtractRfc4571Frame c d) = SUCCESS")
    case True
    let ?d1 = "snd (ExtractRfc4571Frame c d)"
    have t: "connection_type ?d1 = IceTcpDirect"
      using ExtractRfc4571Frame_keeps [of c d "fst (ExtractRfc4571Frame c d)" ?d1] "1.prems" by simp
    from "1.IH" True t obtain n where n: "extraction_steps n c ?d1 = Some (snd (ParseData_IceTcpDirect c ?d1))"
      by blast
    have e: "extraction_step c d = Some ?d1"
      using True "1.prems" by (simp add: extraction_step_def)
    have "ParseData_IceTcpDirect c d = ParseData_IceTcpDirect c ?d1"
      using True by (subst ParseData_IceTcpDirect.simps) simp
    with n e have "extraction_steps (Suc n) c d = Some (snd (ParseData_IceTcpDirect c d))"
      by simp
    then show ?thesis by blast
  next
    case False
    then have "snd (ParseData_IceTcpDirect c d) = d"
      using Extract_unchanged(1) [of c d]
      by (subst ParseData_IceTcpDirect.simps) auto
    then have "extraction_steps 0 c d = Some (snd (ParseData_IceTcpDirect c d))" by simp
    then show ?thesis by blast
  qed
qed

lemma ParseData_TurnRelay_steps:
  assumes "ParseData_TurnRelay c d = Some y"
  shows "connection_type d \<noteq> IceTcpDirect \<longrightarrow> (\<exists>n. extraction_steps n c d = Some (snd y))"
proof (rule ParseData_TurnRelay.raw_induct
    [where P = "\<lambda>c d y. connection_type d \<noteq> IceTcpDirect \<longrightarrow> (\<exists>n. extraction_steps n c d = Some (snd y))",
     OF _ assms], goal_cases)
  case (1 loop c d y)
  show ?case
  proof
    assume t: "connection_type d \<noteq> IceTcpDirect"
    from 1(2) consider
        (stun) "extraction_step c d = Some (snd (ExtractStunMessage c d))"
               "loop c (snd (ExtractStunMessage c d)) = Some y"
      | (chan) "extraction_step c d = Some (snd (ExtractChannelMessage c d))"
               "loop c (snd (ExtractChannelMessage c d)) = Some y"
      | (stop) "snd y = d"
      using t Extract_unchanged(2,3) [of c d]
      by (auto simp: extraction_step_def split: if_splits)
    then show "\<exists>n. extraction_steps n c d = Some (snd y)"
    proof cases
      case stun
      from extraction_step_type [OF stun(1)] t
      have "connection_type (snd (ExtractStunMessage c d)) \<noteq> IceTcpDirect" by simp
      with 1(1) [OF stun(2)] obtain n where
        "extraction_steps n c (snd (ExtractStunMessage c d)) = Some (snd y)" by blast
      with stun(1) have "extraction_steps (Suc n) c d = Some (snd y)" by simp
      then show ?thesis by blast
    next
      case chan
      from extraction_step_type [OF chan(1)] t
      have "connection_type (snd (ExtractChannelMessage c d)) \<noteq> IceTcpDirect" by simp
      with 1(1) [OF chan(2)] obtain n where
        "extraction_steps n c (snd (ExtractChannelMessage c d)) = Some (snd y)" by blast
      with chan(1) have "extraction_steps (Suc n) c d = Some (snd y)" by simp
      then show ?thesis by blast
    next
      case stop
      then have "extraction_steps 0 c d = Some (snd y)" by simp
      then show ?thesis by blast
    qed
  qed
qed

lemma ParseData_frames_steps:
  assumes "ParseData_frames c d = Some (r, d')"
  shows "extraction_steps (length (packets d') - length (packets d)) c d = Some d'"
proof -
  have "\<exists>n. extraction_steps n c d = Some d'"
  proof (cases "connection_type d = IceTcpDirect")
    case True
    with assms have "ParseData_IceTcpDirect c d = (r, d')"
      by (simp add: ParseData_frames_def)
    with ParseData_IceTcpDirect_steps [OF True, of c] show ?thesis by simp
  next
    case False
    with assms have "ParseData_TurnRelay c d = Some (r, d')"
      by (simp add: ParseData_frames_def)
    from ParseData_TurnRelay_steps [OF this] False show ?thesis by simp
  qed
  then obtain n where n: "extraction_steps n c d = Some d'" ..
  from extraction_steps_length [OF n] have "n = length (packets d') - length (packets d)" by simp
  with n show ?thesis by simp
qed

lemma ParseData_False_entry:
  assumes "ParseData c d = Some (False, d')"
  shows "ParseData_frames c (ParseData_loop_entry d) = Some (False, d')"
proof (cases "connection_type d = Unknown")
  case False
  with assms show ?thesis by (simp add: ParseData_def ParseData_loop_entry_def)
next
  case True
  show ?thesis
  proof (cases "fst (DetectConnectionType d)")
    case t: True
    with True assms show ?thesis by (simp add: ParseData_def ParseData_loop_entry_def)
  next
    case f: False
    with True assms have "\<not> length (buffer (snd (DetectConnectionType d))) < RFC4571_HEADER_SIZE + 1"
      by (auto simp: ParseData_def split: if_splits)
    with True f assms show ?thesis by (simp add: ParseData_def ParseData_loop_entry_def)
  qed
qed

lemma ParseData_loop_entry_keeps:
  "buffer (ParseData_loop_entry d) = buffer d \<and> packets (ParseData_loop_entry d) = packets d"
  using DetectConnectionType_cases [of d]
  by (auto simp: ParseData_loop_entry_def)

lemma extraction_step_frames:
  assumes "extraction_step c d = Some d1"
  shows "ParseData_frames c d = ParseData_frames c d1"
proof -
  note t = extraction_step_type [OF assms]
  show ?thesis
  proof (cases "connection_type d = IceTcpDirect")
    case True
    with assms have "RFC4571_HEADER_SIZE \<le> length (buffer d)"
      and "fst (ExtractRfc4571Frame c d) = SUCCESS" and "d1 = snd (ExtractRfc4571Frame c d)"
      by (auto simp: extraction_step_def split: if_splits)
    then have "ParseData_IceTcpDirect c d = ParseData_IceTcpDirect c d1"
      by (subst ParseData_IceTcpDirect.simps) simp
    with True t show ?thesis by (simp add: ParseData_frames_def)
  next
    case False
    with assms have "ParseData_TurnRelay c d = ParseData_TurnRelay c d1"
      by (subst ParseData_TurnRelay.simps) (auto simp: extraction_step_def split: if_splits)
    with False t show ?thesis by (simp add: ParseData_frames_def)
  qed
qed

lemma extraction_steps_frames:
  "extraction_steps n c d = Some s \<Longrightarrow> ParseData_frames c d = ParseData_frames c s"
proof (induction n arbitrary: d)
  case 0
  then show ?case by simp
next
  case (Suc n)
  then obtain d1 where s: "extraction_step c d = Some d1" and r: "extraction_steps n c d1 = Some s"
    by (auto split: option.splits)
  from extraction_step_frames [OF s] Suc.IH [OF r] show ?case by simp
qed

text \<open>
  C10. When AppendData returns false, nothing that was queued is lost or reordered. The
  queue it leaves starts with the queue it found. Every state that the loop of this call
  passed through, each one a packet longer than the one before, has its queue as a prefix of
  the final queue, so each packet that the failing call extracted before the failure is
  still queued, behind the older ones and in the order of extraction; indeed the final state
  is exactly the state after the last extraction of the call. Calls of PopPacket after the
  failure return every packet of that queue, oldest first.
\<close>

theorem failed_AppendData_keeps_packets:
  assumes "AppendData c d data = Some (False, d')"
  shows "prefix (packets d) (packets d')
       \<and> (\<forall>n s. extraction_steps n c (ParseData_loop_entry (d\<lparr>buffer := buffer d @ data\<rparr>)) = Some s
              \<longrightarrow> prefix (packets s) (packets d'))
       \<and> extraction_steps (length (packets d') - length (packets d)) c
            (ParseData_loop_entry (d\<lparr>buffer := buffer d @ data\<rparr>)) = Some d'
       \<and> fst (PopPackets (length (packets d')) d') = map Some (packets d')"
proof -
  let ?e = "ParseData_loop_entry (d\<lparr>buffer := buffer d @ data\<rparr>)"
  have p: "ParseData c (d\<lparr>buffer := buffer d @ data\<rparr>) = Some (False, d')"
    using assms by (simp add: AppendData_def)
  then have "prefix (packets (d\<lparr>buffer := buffer d @ data\<rparr>)) (packets d')"
    by (rule ParseData_keeps_packets)
  then have 1: "prefix (packets d) (packets d')" by simp
  have f: "ParseData_frames c ?e = Some (False, d')"
    using p by (rule ParseData_False_entry)
  have 2: "prefix (packets s) (packets d')" if "extraction_steps n c ?e = Some s" for n s
  proof -
    from extraction_steps_frames [OF that] f have "ParseData_frames c s = Some (False, d')"
      by simp
    from ParseData_frames_keeps [OF this] show ?thesis by simp
  qed
  have "packets ?e = packets d"
    using ParseData_loop_entry_keeps [of "d\<lparr>buffer := buffer d @ data\<rparr>"] by simp
  with ParseData_frames_steps [OF f]
  have 3: "extraction_steps (length (packets d') - length (packets d)) c ?e = Some d'"
    by simp
  have 4: "fst (PopPackets (length (packets d')) d') = map Some (packets d')"
    using PopPackets_take [of "length (packets d')" d'] by simp
  from 1 2 3 4 show ?thesis by blast
qed

theorem failed_AppendData_keeps_packets_witness:
  "AppendData rfc_collaborators
       \<lparr>buffer = [], packets = [\<lparr>p_type = UNKNOWN, p_data = [9]\<rparr>], connection_type = IceTcpDirect\<rparr>
       [0, 20, 0, 1, 0, 0, 33, 18, 164, 66, 1, 2, 3, 4, 5, 6, 7, 8, 9, 10, 11, 12, 0, 10]
     = Some (False,
         \<lparr>buffer = [0, 10],
          packets = [\<lparr>p_type = UNKNOWN, p_data = [9]\<rparr>,
                     \<lparr>p_type = STUN,
                      p_data = [0, 1, 0, 0, 33, 18, 164, 66, 1, 2, 3, 4, 5, 6, 7, 8, 9, 10, 11, 12]\<rparr>],
          connection_type = IceTcpDirect\<rparr>)
   \<and> extraction_steps 1 rfc_collaborators
        (ParseData_loop_entry
          \<lparr>buffer = [0, 20, 0, 1, 0, 0, 33, 18, 164, 66, 1, 2, 3, 4, 5, 6, 7, 8, 9, 10, 11, 12, 0, 10],
           packets = [\<lparr>p_type = UNKNOWN, p_data = [9]\<rparr>], connection_type = IceTcpDirect\<rparr>)
     = Some
         \<lparr>buffer = [0, 10],
          packets = [\<lparr>p_type = UNKNOWN, p_data = [9]\<rparr>,
                     \<lparr>p_type = STUN,
                      p_data = [0, 1, 0, 0, 33, 18, 164, 66, 1, 2, 3, 4, 5, 6, 7, 8, 9, 10, 11, 12]\<rparr>],
          connection_type = IceTcpDirect\<rparr>
   \<and> fst (PopPackets 2
         \<lparr>buffer = [0, 10],
          packets = [\<lparr>p_type = UNKNOWN, p_data = [9]\<rparr>,
                     \<lparr>p_type = STUN,
                      p_data = [0, 1, 0, 0, 33, 18, 164, 66, 1, 2, 3, 4, 5, 6, 7, 8, 9, 10, 11, 12]\<rparr>],
          connection_type = IceTcpDirect\<rparr>)
     = [Some \<lparr>p_type = UNKNOWN, p_data = [9]\<rparr>,
        Some \<lparr>p_type = STUN,
              p_data = [0, 1, 0, 0, 33, 18, 164, 66, 1, 2, 3, 4, 5, 6, 7, 8, 9, 10, 11, 12]\<rparr>]"
proof -
  have a: "AppendData rfc_collaborators
       \<lparr>buffer = [], packets = [\<lparr>p_type = UNKNOWN, p_data = [9]\<rparr>], connection_type = IceTcpDirect\<rparr>
       [0, 20, 0, 1, 0, 0, 33, 18, 164, 66, 1, 2, 3, 4, 5, 6, 7, 8, 9, 10, 11, 12, 0, 10]
     = Some (False,
         \<lparr>buffer = [0, 10],
          packets = [\<lparr>p_type = UNKNOWN, p_data = [9]\<rparr>,
                     \<lparr>p_type = STUN,
                      p_data = [0, 1, 0, 0, 33, 18, 164, 66, 1, 2, 3, 4, 5, 6, 7, 8, 9, 10, 11, 12]\<rparr>],
          connection_type = IceTcpDirect\<rparr>)"
    by (simp add: AppendData_def ParseData_def ParseData_frames_def ParseData_IceTcpDirect.simps
      ExtractRfc4571Frame_SUCCESS ExtractRfc4571Frame_FAILED RFC4571_HEADER_SIZE_def
      rfc_collaborators_def rfc7983_FindPacketType_def)
  from failed_AppendData_keeps_packets [OF a] a show ?thesis
    by (simp add: numeral_2_eq_2)
qed

section \<open>Verification of the ICE candidate\<close>

subsection \<open>Auxiliary facts about the map of extension attributes\<close>

lemma set_fst_std_map_assign:
  "set (map fst (std_map_assign k v m)) = insert k (set (map fst m))"
  by (induction m) (auto simp: rev_image_eqI split: if_splits)

lemma sorted_std_map_assign:
  "sorted_wrt (<) (map fst m) \<Longrightarrow> sorted_wrt (<) (map fst (std_map_assign k v m))"
proof (induction m)
  case Nil
  then show ?case by simp
next
  case (Cons e m)
  obtain k' v' where e: "e = (k', v')" by (cases e)
  from Cons.prems e have s: "sorted_wrt (<) (map fst m)" and l: "\<forall>x \<in> set (map fst m). k' < x"
    by simp_all
  show ?case
  proof (cases "k < k'")
    case True
    with Cons.prems e l show ?thesis by (auto intro: less_trans)
  next
    case False
    show ?thesis
    proof (cases "k = k'")
      case True
      with Cons.prems e show ?thesis by simp
    next
      case ne: False
      with False have "k' < k" by simp
      with Cons.IH [OF s] l False ne e show ?thesis
        by (simp add: set_fst_std_map_assign [simplified])
    qed
  qed
qed

lemma map_of_std_map_assign:
  "sorted_wrt (<) (map fst m) \<Longrightarrow> map_of (std_map_assign k v m) = (map_of m)(k \<mapsto> v)"
proof (induction m)
  case Nil
  then show ?case by simp
next
  case (Cons e m)
  obtain k' v' where e: "e = (k', v')" by (cases e)
  from Cons.prems e have s: "sorted_wrt (<) (map fst m)" by simp
  from Cons.IH [OF s] e show ?case by (auto simp: fun_upd_twist)
qed

lemma sorted_map_of_unique:
  "sorted_wrt (<) (map fst (m :: std_map)) \<Longrightarrow> sorted_wrt (<) (map fst m')
     \<Longrightarrow> map_of m = map_of m' \<Longrightarrow> m = m'"
proof (induction m arbitrary: m')
  case Nil
  then show ?case by (metis map_of_eq_empty_iff map_of.simps(1))
next
  case (Cons e m)
  obtain k v where e: "e = (k, v)" by (cases e)
  from Cons.prems(3) e have "m' \<noteq> []" by (metis map_of_eq_empty_iff map_of.simps(1) list.distinct(1))
  then obtain k' v' m'' where m': "m' = (k', v') # m''" by (cases m') auto
  from Cons.prems(1) e have s1: "sorted_wrt (<) (map fst m)" and l1: "\<forall>x \<in> set (map fst m). k < x"
    by simp_all
  from Cons.prems(2) m' have s2: "sorted_wrt (<) (map fst m'')" and l2: "\<forall>x \<in> set (map fst m''). k' < x"
    by simp_all
  have dom: "insert k (set (map fst m)) = insert k' (set (map fst m''))"
    using Cons.prems(3) e m' by (metis dom_map_of_conv_image_fst list.simps(15) list.simps(9) set_map fst_conv)
  have kk: "k = k'"
  proof (rule ccontr)
    assume ne: "k \<noteq> k'"
    with dom have "k \<in> set (map fst m'')" and "k' \<in> set (map fst m)" by auto
    with l1 l2 have "k' < k" and "k < k'" by auto
    then show False by simp
  qed
  have vv: "v = v'"
    using Cons.prems(3) e m' kk by (auto simp: fun_eq_iff split: if_splits)
  have nk1: "k \<notin> set (map fst m)" and nk2: "k \<notin> set (map fst m'')"
    using l1 l2 kk by auto
  have "map_of m = map_of m''"
  proof
    fix x
    show "map_of m x = map_of m'' x"
    proof (cases "x = k")
      case True
      with nk1 nk2 show ?thesis
        by (metis map_of_eq_None_iff set_map)
    next
      case False
      with Cons.prems(3) e m' kk show ?thesis
        by (auto simp: fun_eq_iff split: if_splits)
    qed
  qed
  from Cons.IH [OF s1 s2 this] kk vv e m' show ?case by simp
qed

lemma AddAllExtensionAttributes_sorted:
  "sorted_wrt (<) (map fst (extension_attributes c))
     \<Longrightarrow> sorted_wrt (<) (map fst (extension_attributes (AddAllExtensionAttributes ps c)))"
proof (induction ps arbitrary: c)
  case Nil
  then show ?case by simp
next
  case (Cons p ps)
  obtain k v where p: "p = (k, v)" by (cases p)
  from Cons.prems have "sorted_wrt (<) (map fst (extension_attributes (AddExtensionAttributes k v c)))"
    by (simp add: AddExtensionAttributes_def sorted_std_map_assign)
  from Cons.IH [OF this] p show ?case by simp
qed

lemma AddAllExtensionAttributes_map_of:
  "sorted_wrt (<) (map fst (extension_attributes c))
     \<Longrightarrow> map_of (extension_attributes (AddAllExtensionAttributes ps c))
         = map_of (extension_attributes c) ++ map_of (rev ps)"
proof (induction ps arbitrary: c)
  case Nil
  then show ?case by simp
next
  case (Cons p ps)
  obtain k v where p: "p = (k, v)" by (cases p)
  from Cons.prems have s: "sorted_wrt (<) (map fst (extension_attributes (AddExtensionAttributes k v c)))"
    by (simp add: AddExtensionAttributes_def sorted_std_map_assign)
  have m: "map_of (extension_attributes (AddExtensionAttributes k v c))
            = (map_of (extension_attributes c))(k \<mapsto> v)"
    using Cons.prems by (simp add: AddExtensionAttributes_def map_of_std_map_assign)
  have u: "(map_of (extension_attributes c))(k \<mapsto> v) ++ map_of (rev ps)
          = map_of (extension_attributes c) ++ (map_of (rev ps @ [(k, v)]))"
    by (simp add: fun_eq_iff map_add_def split: option.splits)
  have "map_of (extension_attributes (AddAllExtensionAttributes (p # ps) c))
          = map_of (extension_attributes (AddAllExtensionAttributes ps (AddExtensionAttributes k v c)))"
    by (simp add: p)
  also have "\<dots> = map_of (extension_attributes (AddExtensionAttributes k v c)) ++ map_of (rev ps)"
    by (rule Cons.IH [OF s])
  also have "\<dots> = (map_of (extension_attributes c))(k \<mapsto> v) ++ map_of (rev ps)"
    by (simp only: m)
  also have "\<dots> = map_of (extension_attributes c) ++ (map_of (rev ps @ [(k, v)]))"
    by (rule u)
  also have "\<dots> = map_of (extension_attributes c) ++ map_of (rev (p # ps))"
    by (simp add: p)
  finally show ?case .
qed

lemma map_of_rev_permutation:
  assumes "mset ps = mset ps'" and "distinct (map fst ps)"
  shows "map_of (rev ps) = map_of (rev ps')"
proof -
  have "mset (map fst ps) = mset (map fst ps')"
    using assms(1) by (metis mset_map)
  with assms(2) have d: "distinct (map fst ps')"
    by (metis mset_eq_imp_distinct_iff)
  have "set (rev ps) = set (rev ps')"
    using assms(1) by (metis mset_eq_setD set_rev)
  moreover have "distinct (map fst (rev ps))" "distinct (map fst (rev ps'))"
    using assms(2) d by (simp_all add: rev_map [symmetric])
  ultimately show ?thesis
    by (simp add: map_of_inject_set)
qed

subsection \<open>Extension attributes\<close>

text \<open>
  C7, as amended. The extension attributes of a candidate are a keyed map. After any list of
  pairs has been added to a candidate without extensions, the collection lists each name once,
  in ascending order of the names, which is the order an iteration over it emits; the value
  under a name is the one added last; and two lists of additions that are equal as multisets
  and do not repeat a name give equal collections, whatever the order of insertion.
\<close>

theorem extension_attributes_keyed_map:
  assumes "extension_attributes c = []" and "extension_attributes c' = []"
  shows "sorted_wrt (<) (map fst (GetExtensionAttributes (AddAllExtensionAttributes ps c)))
       \<and> map_of (GetExtensionAttributes (AddAllExtensionAttributes ps c)) = map_of (rev ps)
       \<and> (mset ps = mset ps' \<and> distinct (map fst ps) \<longrightarrow>
            GetExtensionAttributes (AddAllExtensionAttributes ps c)
              = GetExtensionAttributes (AddAllExtensionAttributes ps' c'))"
proof -
  have s: "sorted_wrt (<) (map fst (extension_attributes (AddAllExtensionAttributes qs c)))"
    and s': "sorted_wrt (<) (map fst (extension_attributes (AddAllExtensionAttributes qs c')))" for qs
    using assms by (simp_all add: AddAllExtensionAttributes_sorted)
  have m: "map_of (extension_attributes (AddAllExtensionAttributes qs c)) = map_of (rev qs)"
    and m': "map_of (extension_attributes (AddAllExtensionAttributes qs c')) = map_of (rev qs)" for qs
    using assms by (simp_all add: AddAllExtensionAttributes_map_of)
  have "extension_attributes (AddAllExtensionAttributes ps c)
          = extension_attributes (AddAllExtensionAttributes ps' c')"
    if "mset ps = mset ps'" and "distinct (map fst ps)"
  proof (rule sorted_map_of_unique [OF s s'])
    show "map_of (extension_attributes (AddAllExtensionAttributes ps c))
            = map_of (extension_attributes (AddAllExtensionAttributes ps' c'))"
      using map_of_rev_permutation [OF that] by (simp only: m m')
  qed
  with s [of ps] m [of ps] show ?thesis
    unfolding GetExtensionAttributes_def by blast
qed

theorem extension_attributes_keyed_map_witness:
  "GetExtensionAttributes (AddAllExtensionAttributes [(''ufrag'', ''x''), (''generation'', ''0'')]
      (IceCandidate_of ''UDP'' ''192.168.0.183'' 10000))
   = GetExtensionAttributes (AddAllExtensionAttributes [(''generation'', ''0''), (''ufrag'', ''x'')]
      (IceCandidate_of ''TCP'' ''192.168.0.183'' 9))
   \<and> map_of (GetExtensionAttributes (AddAllExtensionAttributes [(''ufrag'', ''x''), (''generation'', ''0'')]
      (IceCandidate_of ''UDP'' ''192.168.0.183'' 10000))) ''ufrag'' = Some ''x''"
  using extension_attributes_keyed_map
    [of "IceCandidate_of ''UDP'' ''192.168.0.183'' 10000" "IceCandidate_of ''TCP'' ''192.168.0.183'' 9"
        "[(''ufrag'', ''x''), (''generation'', ''0'')]" "[(''generation'', ''0''), (''ufrag'', ''x'')]"]
  by (simp add: IceCandidate_of_def GetExtensionAttributes_def AddExtensionAttributes_def)

text \<open>
  C7 as stated fails on \<open>std::map<ov::String, ov::String>\<close>: adding the name
  generation twice leaves a single entry, and adding ufrag before generation yields the
  entries with generation first, not in the order of insertion.
\<close>

theorem extension_attributes_counterexample:
  "GetExtensionAttributes (AddAllExtensionAttributes [(''generation'', ''0''), (''generation'', ''1'')]
      (IceCandidate_of ''UDP'' ''192.168.0.183'' 10000))
   = [(''generation'', ''1'')]
   \<and> GetExtensionAttributes (AddAllExtensionAttributes [(''ufrag'', ''x''), (''generation'', ''0'')]
      (IceCandidate_of ''UDP'' ''192.168.0.183'' 10000))
   = [(''generation'', ''0''), (''ufrag'', ''x'')]"
  by (simp add: GetExtensionAttributes_def AddExtensionAttributes_def IceCandidate_of_def)

subsection \<open>Priority\<close>

text \<open>
  C8. For type_preference in [0, 126], local_preference in [0, 65535] and component_id in
  [1, 256], the 32-bit value of CalculatePriority is the number
  type_preference * 2^24 + local_preference * 2^8 + (256 - component_id), which stays below
  2^32: nothing wraps around.
\<close>

theorem CalculatePriority_formula:
  assumes "tp \<le> 126" and "lp \<le> 65535" and "1 \<le> cid" and "cid \<le> 256"
  shows "unat (CalculatePriority tp lp cid) = unat tp * 2 ^ 24 + unat lp * 2 ^ 8 + (256 - unat cid)
       \<and> unat tp * 2 ^ 24 + unat lp * 2 ^ 8 + (256 - unat cid) < 2 ^ 32"
proof -
  have t: "unat tp \<le> 126" and l: "unat lp \<le> 65535" and c: "unat cid \<le> 256"
    using assms by (simp_all add: word_le_nat_alt)
  have s: "unat (256 - cid) = 256 - unat cid"
    using assms(4) by (simp add: unat_sub)
  show ?thesis
    unfolding CalculatePriority_def using t l c s
    by (simp add: unat_word_ariths) arith
qed

theorem CalculatePriority_formula_witness:
  "unat (CalculatePriority 126 65535 1) = 2130706431"
  using CalculatePriority_formula [of 126 65535 1] by simp

subsection \<open>Auxiliary facts about parsing and emitting\<close>

lemma Split_not_Nil: "Split s \<noteq> []"
  by (induction s) (auto split: list.splits)

lemma Split_no_space: "t \<in> set (Split s) \<Longrightarrow> CHR '' '' \<notin> set t"
proof (induction s arbitrary: t)
  case Nil
  then show ?case by simp
next
  case (Cons ch cs)
  show ?case
  proof (cases "ch = CHR '' ''")
    case True
    with Cons show ?thesis by auto
  next
    case False
    obtain u us where u: "Split cs = u # us"
      using Split_not_Nil [of cs] by (cases "Split cs") auto
    with Cons.prems False have "t = ch # u \<or> t \<in> set us" by simp
    with Cons.IH u False show ?thesis by auto
  qed
qed

lemma Split_single: "CHR '' '' \<notin> set t \<Longrightarrow> Split t = [t]"
  by (induction t) auto

lemma Split_append_space:
  "CHR '' '' \<notin> set t \<Longrightarrow> Split (t @ CHR '' '' # s) = t # Split s"
  by (induction t) auto

lemma Split_Join:
  "ts \<noteq> [] \<Longrightarrow> \<forall>t \<in> set ts. CHR '' '' \<notin> set t \<Longrightarrow> Split (Join ts) = ts"
proof (induction ts rule: Join.induct)
  case 1
  then show ?case by simp
next
  case (2 t)
  then show ?case by (simp add: Split_single)
next
  case (3 t u us)
  then show ?case by (simp add: Split_append_space)
qed

lemma digits_value_append:
  "digits_value (xs @ ys) acc = digits_value ys (digits_value xs acc)"
  by (induction xs arbitrary: acc) auto

lemma DecimalString_digits: "list_all is_digit (DecimalString n)"
proof (induction n rule: DecimalString.induct)
  case (1 n)
  show ?case
  proof (cases "n < 10")
    case True
    then show ?thesis
      by (subst DecimalString.simps) (simp add: is_digit_def)
  next
    case False
    have "n mod 10 < 10" by simp
    then have "is_digit (char_of (48 + n mod 10))"
      by (simp add: is_digit_def)
    with 1 False show ?thesis
      by (subst DecimalString.simps) simp
  qed
qed

lemma DecimalString_not_Nil: "DecimalString n \<noteq> []"
  by (subst DecimalString.simps) simp

lemma digits_value_DecimalString: "digits_value (DecimalString n) 0 = n"
proof (induction n rule: DecimalString.induct)
  case (1 n)
  show ?case
  proof (cases "n < 10")
    case True
    then show ?thesis
      by (subst DecimalString.simps) simp
  next
    case False
    have "n mod 10 < 10" by simp
    then have "(of_char (char_of (48 + n mod 10)) :: nat) = 48 + n mod 10"
      by simp
    with 1 False show ?thesis
      by (subst DecimalString.simps) (simp add: digits_value_append)
  qed
qed

lemma ToNumber_DecimalString: "ToNumber (DecimalString n) = Some n"
  by (simp add: ToNumber_def DecimalString_not_Nil DecimalString_digits digits_value_DecimalString)

lemma is_digit_not_space: "list_all is_digit s \<Longrightarrow> CHR '' '' \<notin> set s"
  by (auto simp: list_all_iff is_digit_def)

lemma DecimalString_no_space: "CHR '' '' \<notin> set (DecimalString n)"
  by (rule is_digit_not_space) (rule DecimalString_digits)

lemma of_char_to_upper:
  assumes "97 \<le> (of_char ch :: nat)" and "(of_char ch :: nat) \<le> 122"
  shows "(of_char (to_upper ch) :: nat) = of_char ch - 32"
proof -
  have "(of_char ch :: nat) - 32 < 256" using assms by arith
  then have "((of_char ch :: nat) - 32) mod 256 = of_char ch - 32" by (rule mod_less)
  with assms show ?thesis by (simp add: to_upper_def)
qed

lemma to_upper_no_space: "CHR '' '' \<notin> set t \<Longrightarrow> CHR '' '' \<notin> set (map to_upper t)"
proof (induction t)
  case Nil
  then show ?case by simp
next
  case (Cons ch t)
  have "to_upper ch \<noteq> CHR '' ''"
  proof (cases "97 \<le> (of_char ch :: nat) \<and> (of_char ch :: nat) \<le> 122")
    case True
    then have "(of_char (to_upper ch) :: nat) = of_char ch - 32"
      by (simp add: of_char_to_upper)
    with True have "(of_char (to_upper ch) :: nat) \<noteq> 32" by arith
    then show ?thesis by auto
  next
    case False
    have "to_upper ch = ch"
      unfolding to_upper_def by (rule if_not_P) (rule False)
    with Cons.prems show ?thesis by auto
  qed
  with Cons show ?case by simp
qed

lemma to_upper_idem: "to_upper (to_upper ch) = to_upper ch"
proof (cases "97 \<le> (of_char ch :: nat) \<and> (of_char ch :: nat) \<le> 122")
  case True
  then have "(of_char (to_upper ch) :: nat) = of_char ch - 32"
    by (simp add: of_char_to_upper)
  with True have "\<not> (97 \<le> (of_char (to_upper ch) :: nat))" by arith
  then show ?thesis by (simp add: to_upper_def [of "to_upper ch"])
next
  case False
  have "to_upper ch = ch"
    unfolding to_upper_def by (rule if_not_P) (rule False)
  then show ?thesis by simp
qed

lemma IsTcpTransport_upper: "IsTcpTransport (map to_upper t) = IsTcpTransport t"
  by (simp add: IsTcpTransport_def to_upper_idem comp_def)

lemma candidate_type_no_space: "is_candidate_type t \<Longrightarrow> CHR '' '' \<notin> set t"
  by (auto simp: is_candidate_type_def list_all_iff is_token_char_def)

lemma pair_up_flat: "pair_up (concat (map (\<lambda>(k, v). [k, v]) m)) = Some m"
  by (induction m) auto

lemma pair_up_elements:
  "pair_up ts = Some ps \<Longrightarrow> (k, v) \<in> set ps \<Longrightarrow> k \<in> set ts \<and> v \<in> set ts"
  by (induction ts arbitrary: ps rule: pair_up.induct) (auto split: option.splits)


lemma AddAllExtensionAttributes_other_fields:
  "AddAllExtensionAttributes ps c
     = c\<lparr>extension_attributes := extension_attributes (AddAllExtensionAttributes ps c)\<rparr>"
proof (induction ps arbitrary: c)
  case Nil
  then show ?case by simp
next
  case (Cons p ps)
  obtain k v where p: "p = (k, v)" by (cases p)
  have "AddAllExtensionAttributes (p # ps) c
          = AddAllExtensionAttributes ps (AddExtensionAttributes k v c)"
    by (simp add: p)
  also have "\<dots> = (AddExtensionAttributes k v c)
      \<lparr>extension_attributes := extension_attributes (AddAllExtensionAttributes ps (AddExtensionAttributes k v c))\<rparr>"
    by (rule Cons.IH)
  also have "\<dots> = c\<lparr>extension_attributes := extension_attributes (AddAllExtensionAttributes (p # ps) c)\<rparr>"
    by (simp add: p AddExtensionAttributes_def)
  finally show ?case .
qed

lemma sorted_keys_distinct: "sorted_wrt (<) (map fst (m :: std_map)) \<Longrightarrow> distinct (map fst m)"
  by (simp add: strict_sorted_iff)

lemma AddAllExtensionAttributes_refill:
  assumes "sorted_wrt (<) (map fst m)" and "extension_attributes c = []"
  shows "extension_attributes (AddAllExtensionAttributes m c) = m"
proof (rule sorted_map_of_unique)
  show "sorted_wrt (<) (map fst (extension_attributes (AddAllExtensionAttributes m c)))"
    using assms(2) by (simp add: AddAllExtensionAttributes_sorted)
  show "sorted_wrt (<) (map fst m)" by (rule assms(1))
  have "distinct (map fst m)" using assms(1) by (rule sorted_keys_distinct)
  then have "map_of (rev m) = map_of m"
    by (subst map_of_inject_set) (simp_all add: rev_map [symmetric])
  then show "map_of (extension_attributes (AddAllExtensionAttributes m c)) = map_of m"
    using assms(2) by (simp add: AddAllExtensionAttributes_map_of)
qed

lemma AddAllExtensionAttributes_entries:
  assumes "extension_attributes c = []"
    and "(k, v) \<in> set (extension_attributes (AddAllExtensionAttributes ps c))"
  shows "(k, v) \<in> set ps"
proof -
  let ?E = "extension_attributes (AddAllExtensionAttributes ps c)"
  have "sorted_wrt (<) (map fst ?E)"
    using assms(1) by (simp add: AddAllExtensionAttributes_sorted)
  then have "distinct (map fst ?E)" by (rule sorted_keys_distinct)
  with assms(2) have "map_of ?E k = Some v" by simp
  then have "map_of (rev ps) k = Some v"
    using assms(1) by (simp add: AddAllExtensionAttributes_map_of)
  then have "(k, v) \<in> set (rev ps)" by (rule map_of_SomeD)
  then show ?thesis by simp
qed

lemma IntString_no_space: "CHR '' '' \<notin> set (IntString i)"
  by (simp add: IntString_def DecimalString_no_space)

lemma word_of_nat_nat_sint:
  "0 \<le> sint (w :: 32 word) \<Longrightarrow> (of_nat (nat (sint w)) :: 32 word) = w"
proof -
  assume "0 \<le> sint w"
  then have "(of_nat (nat (sint w)) :: 32 word) = of_int (sint w)"
    by simp
  then show ?thesis by simp
qed

lemma related_tokens_roundtrip:
  assumes "ra = [] \<longrightarrow> rp = 0 \<and> (E = [] \<or> fst (hd E) \<notin> {''raddr'', ''rport''})"
    and "R = (if ra \<noteq> [] then [''raddr'', ra, ''rport'', DecimalString (unat rp)] else [])
             @ concat (map (\<lambda>(k, v). [k, v]) E)"
  shows "fst (take_raddr R) = ra
       \<and> take_rport (snd (take_raddr R)) = Some (rp, concat (map (\<lambda>(k, v). [k, v]) E))"
proof (cases "ra = []")
  case False
  with assms(2) show ?thesis
    by (simp add: take_raddr_def take_rport_def ToNumber_DecimalString)
next
  case True
  with assms(1) have rp: "rp = 0" and e: "E = [] \<or> fst (hd E) \<notin> {''raddr'', ''rport''}"
    by simp_all
  show ?thesis
  proof (cases E)
    case Nil
    with True rp assms(2) show ?thesis
      by (simp add: take_raddr_def take_rport_def)
  next
    case (Cons p E')
    obtain k v where p: "p = (k, v)" by (cases p)
    from e Cons p have k: "k \<noteq> ''raddr''" "k \<noteq> ''rport''" by simp_all
    from assms(2) True Cons p have R: "R = k # v # concat (map (\<lambda>(k, v). [k, v]) E')"
      by simp
    show ?thesis
      unfolding R using k True rp Cons p
      by (simp add: take_raddr_def take_rport_def)
  qed
qed

lemma take_raddr_elements:
  "fst (take_raddr ts) = [] \<or> fst (take_raddr ts) \<in> set ts"
  "set (snd (take_raddr ts)) \<subseteq> set ts"
  by (auto simp: take_raddr_def split: list.splits)

lemma take_rport_elements:
  "take_rport ts = Some (rp, rest) \<Longrightarrow> set rest \<subseteq> set ts"
  by (auto simp: take_rport_def split: list.splits if_splits option.splits)


lemma ParseTokens_Some:
  assumes "ParseTokens ts = Some c"
  obtains f cid tr pr addr po ct rest component prio port_number rp rest' ps where
    "ts = f # cid # tr # pr # addr # po # ''typ'' # ct # rest"
    and "ToNumber cid = Some component"
    and "ToNumber pr = Some prio"
    and "ToNumber po = Some port_number"
    and "is_candidate_type ct"
    and "take_rport (snd (take_raddr rest)) = Some (rp, rest')"
    and "pair_up rest' = Some ps"
    and "c = (AddAllExtensionAttributes ps
                \<lparr>foundation = f, component_id = of_nat component, transport = tr,
                 priority = of_nat prio, address_str = addr,
                 port = of_nat port_number, candidate_types = ct,
                 rel_addr = fst (take_raddr rest), rel_port = rp,
                 extension_attributes = [], tcp_type = NoneType\<rparr>)
              \<lparr>tcp_type := tcp_type_of tr (extension_attributes (AddAllExtensionAttributes ps
                \<lparr>foundation = f, component_id = of_nat component, transport = tr,
                 priority = of_nat prio, address_str = addr,
                 port = of_nat port_number, candidate_types = ct,
                 rel_addr = fst (take_raddr rest), rel_port = rp,
                 extension_attributes = [], tcp_type = NoneType\<rparr>))\<rparr>"
proof -
  from assms obtain f cid tr pr addr po ty ct rest where
    ts: "ts = f # cid # tr # pr # addr # po # ty # ct # rest"
    unfolding ParseTokens_def by (simp split: list.splits)
  from assms ts obtain component prio port_number where
    n: "ToNumber cid = Some component" "ToNumber pr = Some prio" "ToNumber po = Some port_number"
    unfolding ParseTokens_def by (simp split: option.splits)
  from assms ts n have t: "ty = ''typ''" and ct: "is_candidate_type ct"
    unfolding ParseTokens_def by (simp_all split: if_splits)
  from assms ts n t ct obtain rp rest' where
    r: "take_rport (snd (take_raddr rest)) = Some (rp, rest')"
    unfolding ParseTokens_def by (cases "take_rport (snd (take_raddr rest))") auto
  from assms ts n t ct r obtain ps where p: "pair_up rest' = Some ps"
    unfolding ParseTokens_def by (simp split: option.splits)
  from assms ts n t ct r p show ?thesis
    unfolding ParseTokens_def by (intro that [of f cid tr pr addr po ct rest component prio port_number rp rest' ps])
      (simp_all add: Let_def)
qed


lemma ParseTokens_CandidateTokens:
  assumes p: "ParseTokens ts = Some c"
    and h: "rel_addr c = [] \<longrightarrow>
              rel_port c = 0
              \<and> (extension_attributes c = []
                 \<or> fst (hd (extension_attributes c)) \<notin> {''raddr'', ''rport''})"
    and pos: "0 \<le> sint (port c)"
  shows "ParseTokens (CandidateTokens c) = Some (c\<lparr>transport := map to_upper (transport c)\<rparr>)"
proof -
  from p obtain f cid tr pr addr po ct rest component prio port_number rp rest' ps where
    ct: "is_candidate_type ct"
    and c0: "c = (AddAllExtensionAttributes ps
                \<lparr>foundation = f, component_id = of_nat component, transport = tr,
                 priority = of_nat prio, address_str = addr,
                 port = of_nat port_number, candidate_types = ct,
                 rel_addr = fst (take_raddr rest), rel_port = rp,
                 extension_attributes = [], tcp_type = NoneType\<rparr>)
              \<lparr>tcp_type := tcp_type_of tr (extension_attributes (AddAllExtensionAttributes ps
                \<lparr>foundation = f, component_id = of_nat component, transport = tr,
                 priority = of_nat prio, address_str = addr,
                 port = of_nat port_number, candidate_types = ct,
                 rel_addr = fst (take_raddr rest), rel_port = rp,
                 extension_attributes = [], tcp_type = NoneType\<rparr>))\<rparr>"
    by (rule ParseTokens_Some)
  define ra where "ra = fst (take_raddr rest)"
  define base where "base = \<lparr>foundation = f, component_id = of_nat component, transport = tr,
                 priority = of_nat prio, address_str = addr,
                 port = of_nat port_number, candidate_types = ct,
                 rel_addr = ra, rel_port = rp,
                 extension_attributes = [], tcp_type = NoneType\<rparr>"
  define E where "E = extension_attributes (AddAllExtensionAttributes ps base)"
  have sE: "sorted_wrt (<) (map fst E)"
    unfolding E_def by (rule AddAllExtensionAttributes_sorted) (simp add: base_def)
  have "AddAllExtensionAttributes ps base = base\<lparr>extension_attributes := E\<rparr>"
    unfolding E_def by (rule AddAllExtensionAttributes_other_fields)
  with c0 have c: "c = \<lparr>foundation = f, component_id = of_nat component, transport = tr,
                 priority = of_nat prio, address_str = addr,
                 port = of_nat port_number, candidate_types = ct,
                 rel_addr = ra, rel_port = rp,
                 extension_attributes = E, tcp_type = tcp_type_of tr E\<rparr>"
    by (simp add: base_def [symmetric] ra_def [symmetric] E_def [symmetric]) (simp add: base_def)
  define R where "R = (if ra \<noteq> [] then [''raddr'', ra, ''rport'', DecimalString (unat rp)] else [])
             @ concat (map (\<lambda>(k, v). [k, v]) E)"
  have toks: "CandidateTokens c =
      f # DecimalString (unat (of_nat component :: 32 word)) # map to_upper tr
        # DecimalString (unat (of_nat prio :: 32 word)) # addr
        # DecimalString (nat (sint (of_nat port_number :: 32 word)))
        # ''typ'' # ct # R"
    using pos by (simp add: CandidateTokens_def c R_def IntString_def)
  have po: "(of_nat (nat (sint (of_nat port_number :: 32 word))) :: 32 word) = of_nat port_number"
    using pos by (intro word_of_nat_nat_sint) (simp add: c)
  from h have "ra = [] \<longrightarrow> rp = 0 \<and> (E = [] \<or> fst (hd E) \<notin> {''raddr'', ''rport''})"
    by (simp add: c)
  from related_tokens_roundtrip [OF this R_def]
  have ra: "fst (take_raddr R) = ra"
    and rp: "take_rport (snd (take_raddr R)) = Some (rp, concat (map (\<lambda>(k, v). [k, v]) E))"
    by simp_all
  define base' where "base' = \<lparr>foundation = f,
                 component_id = of_nat (unat (of_nat component :: 32 word)),
                 transport = map to_upper tr,
                 priority = of_nat (unat (of_nat prio :: 32 word)), address_str = addr,
                 port = of_nat (nat (sint (of_nat port_number :: 32 word))), candidate_types = ct,
                 rel_addr = ra, rel_port = rp,
                 extension_attributes = [], tcp_type = NoneType\<rparr>"
  have E': "extension_attributes (AddAllExtensionAttributes E base') = E"
    by (rule AddAllExtensionAttributes_refill [OF sE]) (simp add: base'_def)
  have "AddAllExtensionAttributes E base'
          = base'\<lparr>extension_attributes := extension_attributes (AddAllExtensionAttributes E base')\<rparr>"
    by (rule AddAllExtensionAttributes_other_fields)
  then have A: "AddAllExtensionAttributes E base' = base'\<lparr>extension_attributes := E\<rparr>"
    by (simp only: E')
  have "ParseTokens (CandidateTokens c)
          = Some ((AddAllExtensionAttributes E base')
               \<lparr>tcp_type := tcp_type_of (map to_upper tr)
                    (extension_attributes (AddAllExtensionAttributes E base'))\<rparr>)"
    unfolding toks ParseTokens_def
    by (simp add: ToNumber_DecimalString ct ra rp pair_up_flat Let_def base'_def)
  also have "\<dots> = Some (c\<lparr>transport := map to_upper (transport c)\<rparr>)"
    unfolding A by (simp add: base'_def c po tcp_type_of_def IsTcpTransport_upper)
  finally show ?thesis .
qed


lemma CandidateTokens_no_space:
  assumes p: "ParseTokens ts = Some c"
    and s: "\<forall>t \<in> set ts. CHR '' '' \<notin> set t"
  shows "\<forall>t \<in> set (CandidateTokens c). CHR '' '' \<notin> set t"
proof -
  from p obtain f cid tr pr addr po ct rest component prio port_number rp rest' ps where
    ts: "ts = f # cid # tr # pr # addr # po # ''typ'' # ct # rest"
    and ct: "is_candidate_type ct"
    and r: "take_rport (snd (take_raddr rest)) = Some (rp, rest')"
    and ps: "pair_up rest' = Some ps"
    and c0: "c = (AddAllExtensionAttributes ps
                \<lparr>foundation = f, component_id = of_nat component, transport = tr,
                 priority = of_nat prio, address_str = addr,
                 port = of_nat port_number, candidate_types = ct,
                 rel_addr = fst (take_raddr rest), rel_port = rp,
                 extension_attributes = [], tcp_type = NoneType\<rparr>)
              \<lparr>tcp_type := tcp_type_of tr (extension_attributes (AddAllExtensionAttributes ps
                \<lparr>foundation = f, component_id = of_nat component, transport = tr,
                 priority = of_nat prio, address_str = addr,
                 port = of_nat port_number, candidate_types = ct,
                 rel_addr = fst (take_raddr rest), rel_port = rp,
                 extension_attributes = [], tcp_type = NoneType\<rparr>))\<rparr>"
    by (rule ParseTokens_Some)
  define ra where "ra = fst (take_raddr rest)"
  define base where "base = \<lparr>foundation = f, component_id = of_nat component, transport = tr,
                 priority = of_nat prio, address_str = addr,
                 port = of_nat port_number, candidate_types = ct,
                 rel_addr = ra, rel_port = rp,
                 extension_attributes = [], tcp_type = NoneType\<rparr>"
  define E where "E = extension_attributes (AddAllExtensionAttributes ps base)"
  have "AddAllExtensionAttributes ps base = base\<lparr>extension_attributes := E\<rparr>"
    unfolding E_def by (rule AddAllExtensionAttributes_other_fields)
  with c0 have c: "c = \<lparr>foundation = f, component_id = of_nat component, transport = tr,
                 priority = of_nat prio, address_str = addr,
                 port = of_nat port_number, candidate_types = ct,
                 rel_addr = ra, rel_port = rp,
                 extension_attributes = E, tcp_type = tcp_type_of tr E\<rparr>"
    by (simp add: base_def [symmetric] ra_def [symmetric] E_def [symmetric]) (simp add: base_def)
  have f: "CHR '' '' \<notin> set f" and tr: "CHR '' '' \<notin> set tr" and addr: "CHR '' '' \<notin> set addr"
    and rest: "\<forall>t \<in> set rest. CHR '' '' \<notin> set t"
    using s ts by simp_all
  have ra: "CHR '' '' \<notin> set ra"
  proof (cases "ra = []")
    case True
    then show ?thesis by simp
  next
    case False
    with take_raddr_elements(1) [of rest] have "ra \<in> set rest"
      by (simp add: ra_def)
    with rest show ?thesis by blast
  qed
  have "set rest' \<subseteq> set rest"
    using take_rport_elements [OF r] take_raddr_elements(2) [of rest] by blast
  with rest have rest': "\<forall>t \<in> set rest'. CHR '' '' \<notin> set t" by blast
  have E: "CHR '' '' \<notin> set k \<and> CHR '' '' \<notin> set v" if "(k, v) \<in> set E" for k v
  proof -
    have "extension_attributes base = []" by (simp add: base_def)
    from AddAllExtensionAttributes_entries [OF this that [unfolded E_def]]
    have "(k, v) \<in> set ps" .
    from pair_up_elements [OF ps this] rest' show ?thesis by blast
  qed
  have flat: "\<forall>t \<in> set (concat (map (\<lambda>(k, v). [k, v]) E)). CHR '' '' \<notin> set t"
  proof
    fix t
    assume "t \<in> set (concat (map (\<lambda>(k, v). [k, v]) E))"
    then obtain k v where "(k, v) \<in> set E" and "t = k \<or> t = v"
      by auto
    with E show "CHR '' '' \<notin> set t" by blast
  qed
  have head: "\<forall>t \<in> set [f, DecimalString (unat (component_id c)), map to_upper tr,
      DecimalString (unat (priority c)), addr, IntString (sint (port c)), ''typ'', ct].
      CHR '' '' \<notin> set t"
    using f tr addr ct to_upper_no_space [OF tr] candidate_type_no_space [OF ct]
      DecimalString_no_space [of "unat (component_id c)"] DecimalString_no_space [of "unat (priority c)"]
      IntString_no_space [of "sint (port c)"]
    by simp
  have rel: "\<forall>t \<in> set (if ra \<noteq> [] then [''raddr'', ra, ''rport'', DecimalString (unat rp)] else []).
      CHR '' '' \<notin> set t"
    using ra DecimalString_no_space [of "unat rp"] by auto
  have "CandidateTokens c = [f, DecimalString (unat (component_id c)), map to_upper tr,
      DecimalString (unat (priority c)), addr, IntString (sint (port c)), ''typ'', ct]
      @ (if ra \<noteq> [] then [''raddr'', ra, ''rport'', DecimalString (unat rp)] else [])
      @ concat (map (\<lambda>(k, v). [k, v]) E)"
    unfolding CandidateTokens_def by (simp add: c)
  with head rel flat show ?thesis
    by (simp only: set_append ball_Un)
qed

subsection \<open>Round trip\<close>

text \<open>
  C9, as amended. Let c be a candidate that ParseFromString produced from some line, and
  suppose that, if c has no related address, its related port is 0 and the first entry of its
  extension map is not named raddr or rport, and that the port of c, a 32-bit signed number,
  is not negative. Then parsing the emitted line of c succeeds and gives c again with the
  transport in upper case: every other field is the same, and the extension attributes are
  the same map. The unsigned fields may have wrapped around when the line was parsed: the
  statement covers them.
\<close>

theorem candidate_round_trip:
  assumes "ParseFromString line = Some c"
    and "rel_addr c = [] \<longrightarrow>
           rel_port c = 0
           \<and> (extension_attributes c = []
              \<or> fst (hd (extension_attributes c)) \<notin> {''raddr'', ''rport''})"
    and "0 \<le> sint (port c)"
  shows "ParseFromString (GetCandidateString c) = Some (c\<lparr>transport := map to_upper (transport c)\<rparr>)"
proof -
  let ?ts = "Split (strip_candidate_prefix line)"
  have p: "ParseTokens ?ts = Some c"
    using assms(1) by (simp add: ParseFromString_def)
  have "\<forall>t \<in> set ?ts. CHR '' '' \<notin> set t"
    by (simp add: Split_no_space)
  with p have n: "\<forall>t \<in> set (CandidateTokens c). CHR '' '' \<notin> set t"
    by (rule CandidateTokens_no_space)
  have ne: "CandidateTokens c \<noteq> []"
    by (simp add: CandidateTokens_def)
  have "strip_candidate_prefix (GetCandidateString c) = Join (CandidateTokens c)"
    by (simp add: strip_candidate_prefix_def GetCandidateString_def)
  then have "ParseFromString (GetCandidateString c) = ParseTokens (Split (Join (CandidateTokens c)))"
    by (simp add: ParseFromString_def)
  also have "\<dots> = ParseTokens (CandidateTokens c)"
    by (simp only: Split_Join [OF ne n])
  also have "\<dots> = Some (c\<lparr>transport := map to_upper (transport c)\<rparr>)"
    using p assms(2,3) by (rule ParseTokens_CandidateTokens)
  finally show ?thesis .
qed

theorem candidate_round_trip_witness:
  "ParseFromString ''candidate:0 1 UDP 2130706431 192.168.0.183 10000 typ host generation 0''
     = Some \<lparr>foundation = ''0'', component_id = 1, transport = ''UDP'', priority = 2130706431,
         address_str = ''192.168.0.183'', port = 10000, candidate_types = ''host'',
         rel_addr = [], rel_port = 0, extension_attributes = [(''generation'', ''0'')],
         tcp_type = NoneType\<rparr>
   \<and> ParseFromString (GetCandidateString
       \<lparr>foundation = ''0'', component_id = 1, transport = ''UDP'', priority = 2130706431,
         address_str = ''192.168.0.183'', port = 10000, candidate_types = ''host'',
         rel_addr = [], rel_port = 0, extension_attributes = [(''generation'', ''0'')],
         tcp_type = NoneType\<rparr>)
     = Some \<lparr>foundation = ''0'', component_id = 1, transport = ''UDP'', priority = 2130706431,
         address_str = ''192.168.0.183'', port = 10000, candidate_types = ''host'',
         rel_addr = [], rel_port = 0, extension_attributes = [(''generation'', ''0'')],
         tcp_type = NoneType\<rparr>
   \<and> ParseFromString ''1 1 tcp 1518280447 10.0.0.5 9 typ srflx raddr 192.168.0.2 rport 9 tcptype active generation 0''
     = Some \<lparr>foundation = ''1'', component_id = 1, transport = ''tcp'', priority = 1518280447,
         address_str = ''10.0.0.5'', port = 9, candidate_types = ''srflx'',
         rel_addr = ''192.168.0.2'', rel_port = 9,
         extension_attributes = [(''generation'', ''0''), (''tcptype'', ''active'')],
         tcp_type = Active\<rparr>
   \<and> ParseFromString (GetCandidateString
       \<lparr>foundation = ''1'', component_id = 1, transport = ''tcp'', priority = 1518280447,
         address_str = ''10.0.0.5'', port = 9, candidate_types = ''srflx'',
         rel_addr = ''192.168.0.2'', rel_port = 9,
         extension_attributes = [(''generation'', ''0''), (''tcptype'', ''active'')],
         tcp_type = Active\<rparr>)
     = Some \<lparr>foundation = ''1'', component_id = 1, transport = ''TCP'', priority = 1518280447,
         address_str = ''10.0.0.5'', port = 9, candidate_types = ''srflx'',
         rel_addr = ''192.168.0.2'', rel_port = 9,
         extension_attributes = [(''generation'', ''0''), (''tcptype'', ''active'')],
         tcp_type = Active\<rparr>"
proof -
  have a: "ParseFromString ''candidate:0 1 UDP 2130706431 192.168.0.183 10000 typ host generation 0''
     = Some \<lparr>foundation = ''0'', component_id = 1, transport = ''UDP'', priority = 2130706431,
         address_str = ''192.168.0.183'', port = 10000, candidate_types = ''host'',
         rel_addr = [], rel_port = 0, extension_attributes = [(''generation'', ''0'')],
         tcp_type = NoneType\<rparr>"
    by (simp add: ParseFromString_def strip_candidate_prefix_def ParseTokens_def ToNumber_def
        is_digit_def is_candidate_type_def is_token_char_def take_raddr_def take_rport_def
        AddExtensionAttributes_def tcp_type_of_def IsTcpTransport_def to_upper_def)
  have b: "ParseFromString ''1 1 tcp 1518280447 10.0.0.5 9 typ srflx raddr 192.168.0.2 rport 9 tcptype active generation 0''
     = Some \<lparr>foundation = ''1'', component_id = 1, transport = ''tcp'', priority = 1518280447,
         address_str = ''10.0.0.5'', port = 9, candidate_types = ''srflx'',
         rel_addr = ''192.168.0.2'', rel_port = 9,
         extension_attributes = [(''generation'', ''0''), (''tcptype'', ''active'')],
         tcp_type = Active\<rparr>"
    by (simp add: ParseFromString_def strip_candidate_prefix_def ParseTokens_def ToNumber_def
        is_digit_def is_candidate_type_def is_token_char_def take_raddr_def take_rport_def
        AddExtensionAttributes_def tcp_type_of_def IsTcpTransport_def to_upper_def char_of_def bit_0)
  have u: "map to_upper ''tcp'' = ''TCP''" "map to_upper ''UDP'' = ''UDP''"
    by (simp_all add: to_upper_def char_of_def bit_0)
  from candidate_round_trip [OF a] candidate_round_trip [OF b] a b u show ?thesis
    by simp
qed

text \<open>
  C9 as stated fails. The line below carries rport without raddr, which the grammar allows.
  The parsed candidate has the related port 7 and no related address; the emitted line leaves
  both out, since they are emitted together and only with a related address; parsing that line
  gives the related port 0.
\<close>

theorem candidate_round_trip_counterexample:
  "ParseFromString ''candidate:0 1 UDP 1 1.2.3.4 5 typ host rport 7''
     = Some \<lparr>foundation = ''0'', component_id = 1, transport = ''UDP'', priority = 1,
         address_str = ''1.2.3.4'', port = 5, candidate_types = ''host'',
         rel_addr = [], rel_port = 7, extension_attributes = [], tcp_type = NoneType\<rparr>
   \<and> GetCandidateString
       \<lparr>foundation = ''0'', component_id = 1, transport = ''UDP'', priority = 1,
         address_str = ''1.2.3.4'', port = 5, candidate_types = ''host'',
         rel_addr = [], rel_port = 7, extension_attributes = [], tcp_type = NoneType\<rparr>
     = ''candidate:0 1 UDP 1 1.2.3.4 5 typ host''
   \<and> ParseFromString ''candidate:0 1 UDP 1 1.2.3.4 5 typ host''
     = Some \<lparr>foundation = ''0'', component_id = 1, transport = ''UDP'', priority = 1,
         address_str = ''1.2.3.4'', port = 5, candidate_types = ''host'',
         rel_addr = [], rel_port = 0, extension_attributes = [], tcp_type = NoneType\<rparr>"
proof -
  have a: "ParseFromString ''candidate:0 1 UDP 1 1.2.3.4 5 typ host rport 7''
     = Some \<lparr>foundation = ''0'', component_id = 1, transport = ''UDP'', priority = 1,
         address_str = ''1.2.3.4'', port = 5, candidate_types = ''host'',
         rel_addr = [], rel_port = 7, extension_attributes = [], tcp_type = NoneType\<rparr>"
    by (simp add: ParseFromString_def strip_candidate_prefix_def ParseTokens_def ToNumber_def
        is_digit_def is_candidate_type_def is_token_char_def take_raddr_def take_rport_def
        tcp_type_of_def IsTcpTransport_def to_upper_def)
  have b: "GetCandidateString
       \<lparr>foundation = ''0'', component_id = 1, transport = ''UDP'', priority = 1,
         address_str = ''1.2.3.4'', port = 5, candidate_types = ''host'',
         rel_addr = [], rel_port = 7, extension_attributes = [], tcp_type = NoneType\<rparr>
     = ''candidate:0 1 UDP 1 1.2.3.4 5 typ host''"
    by (simp add: GetCandidateString_def CandidateTokens_def IntString_def DecimalString.simps
        to_upper_def char_of_def bit_0)
  have c: "ParseFromString ''candidate:0 1 UDP 1 1.2.3.4 5 typ host''
     = Some \<lparr>foundation = ''0'', component_id = 1, transport = ''UDP'', priority = 1,
         address_str = ''1.2.3.4'', port = 5, candidate_types = ''host'',
         rel_addr = [], rel_port = 0, extension_attributes = [], tcp_type = NoneType\<rparr>"
    by (simp add: ParseFromString_def strip_candidate_prefix_def ParseTokens_def ToNumber_def
        is_digit_def is_candidate_type_def is_token_char_def take_raddr_def take_rport_def
        tcp_type_of_def IsTcpTransport_def to_upper_def)
  from a b c show ?thesis by (intro conjI)
qed

text \<open>
  The second condition of the amended claim is needed as well: the map emits its entries in
  ascending order of the names, so an extension named raddr that was read after another
  extension can be emitted first, where the next parse reads it as the related address.
\<close>

lemma extension_named_raddr_is_reordered:
  "ParseFromString ''0 1 UDP 1 1.2.3.4 5 typ host x 1 raddr 9.9.9.9''
     = Some \<lparr>foundation = ''0'', component_id = 1, transport = ''UDP'', priority = 1,
         address_str = ''1.2.3.4'', port = 5, candidate_types = ''host'',
         rel_addr = [], rel_port = 0,
         extension_attributes = [(''raddr'', ''9.9.9.9''), (''x'', ''1'')], tcp_type = NoneType\<rparr>
   \<and> GetCandidateString
       \<lparr>foundation = ''0'', component_id = 1, transport = ''UDP'', priority = 1,
         address_str = ''1.2.3.4'', port = 5, candidate_types = ''host'',
         rel_addr = [], rel_port = 0,
         extension_attributes = [(''raddr'', ''9.9.9.9''), (''x'', ''1'')], tcp_type = NoneType\<rparr>
     = ''candidate:0 1 UDP 1 1.2.3.4 5 typ host raddr 9.9.9.9 x 1''
   \<and> ParseFromString ''candidate:0 1 UDP 1 1.2.3.4 5 typ host raddr 9.9.9.9 x 1''
     = Some \<lparr>foundation = ''0'', component_id = 1, transport = ''UDP'', priority = 1,
         address_str = ''1.2.3.4'', port = 5, candidate_types = ''host'',
         rel_addr = ''9.9.9.9'', rel_port = 0,
         extension_attributes = [(''x'', ''1'')], tcp_type = NoneType\<rparr>"
proof -
  have a: "ParseFromString ''0 1 UDP 1 1.2.3.4 5 typ host x 1 raddr 9.9.9.9''
     = Some \<lparr>foundation = ''0'', component_id = 1, transport = ''UDP'', priority = 1,
         address_str = ''1.2.3.4'', port = 5, candidate_types = ''host'',
         rel_addr = [], rel_port = 0,
         extension_attributes = [(''raddr'', ''9.9.9.9''), (''x'', ''1'')], tcp_type = NoneType\<rparr>"
    by (simp add: ParseFromString_def strip_candidate_prefix_def ParseTokens_def ToNumber_def
        is_digit_def is_candidate_type_def is_token_char_def take_raddr_def take_rport_def
        AddExtensionAttributes_def tcp_type_of_def IsTcpTransport_def to_upper_def)
  have b: "GetCandidateString
       \<lparr>foundation = ''0'', component_id = 1, transport = ''UDP'', priority = 1,
         address_str = ''1.2.3.4'', port = 5, candidate_types = ''host'',
         rel_addr = [], rel_port = 0,
         extension_attributes = [(''raddr'', ''9.9.9.9''), (''x'', ''1'')], tcp_type = NoneType\<rparr>
     = ''candidate:0 1 UDP 1 1.2.3.4 5 typ host raddr 9.9.9.9 x 1''"
    by (simp add: GetCandidateString_def CandidateTokens_def IntString_def DecimalString.simps
        to_upper_def char_of_def bit_0)
  have c: "ParseFromString ''candidate:0 1 UDP 1 1.2.3.4 5 typ host raddr 9.9.9.9 x 1''
     = Some \<lparr>foundation = ''0'', component_id = 1, transport = ''UDP'', priority = 1,
         address_str = ''1.2.3.4'', port = 5, candidate_types = ''host'',
         rel_addr = ''9.9.9.9'', rel_port = 0,
         extension_attributes = [(''x'', ''1'')], tcp_type = NoneType\<rparr>"
    by (simp add: ParseFromString_def strip_candidate_prefix_def ParseTokens_def ToNumber_def
        is_digit_def is_candidate_type_def is_token_char_def take_raddr_def take_rport_def
        AddExtensionAttributes_def tcp_type_of_def IsTcpTransport_def to_upper_def)
  from a b c show ?thesis by (intro conjI)
qed

text \<open>
  The condition on the port is needed too: digits beyond the range of a 32-bit signed number
  wrap to a negative port, which is emitted with a minus sign, and the next parse refuses a
  port that is not made of digits.
\<close>

lemma port_beyond_int_is_refused:
  "ParseFromString ''0 1 UDP 1 1.2.3.4 4294967295 typ host''
     = Some \<lparr>foundation = ''0'', component_id = 1, transport = ''UDP'', priority = 1,
         address_str = ''1.2.3.4'', port = - 1, candidate_types = ''host'',
         rel_addr = [], rel_port = 0, extension_attributes = [], tcp_type = NoneType\<rparr>
   \<and> GetCandidateString
       \<lparr>foundation = ''0'', component_id = 1, transport = ''UDP'', priority = 1,
         address_str = ''1.2.3.4'', port = - 1, candidate_types = ''host'',
         rel_addr = [], rel_port = 0, extension_attributes = [], tcp_type = NoneType\<rparr>
     = ''candidate:0 1 UDP 1 1.2.3.4 -1 typ host''
   \<and> ParseFromString ''candidate:0 1 UDP 1 1.2.3.4 -1 typ host'' = None"
proof -
  have a: "ParseFromString ''0 1 UDP 1 1.2.3.4 4294967295 typ host''
     = Some \<lparr>foundation = ''0'', component_id = 1, transport = ''UDP'', priority = 1,
         address_str = ''1.2.3.4'', port = - 1, candidate_types = ''host'',
         rel_addr = [], rel_port = 0, extension_attributes = [], tcp_type = NoneType\<rparr>"
    by (simp add: ParseFromString_def strip_candidate_prefix_def ParseTokens_def ToNumber_def
        is_digit_def is_candidate_type_def is_token_char_def take_raddr_def take_rport_def
        tcp_type_of_def IsTcpTransport_def to_upper_def)
  have b: "GetCandidateString
       \<lparr>foundation = ''0'', component_id = 1, transport = ''UDP'', priority = 1,
         address_str = ''1.2.3.4'', port = - 1, candidate_types = ''host'',
         rel_addr = [], rel_port = 0, extension_attributes = [], tcp_type = NoneType\<rparr>
     = ''candidate:0 1 UDP 1 1.2.3.4 -1 typ host''"
    by (simp add: GetCandidateString_def CandidateTokens_def IntString_def DecimalString.simps
        to_upper_def char_of_def bit_0)
  have c: "ParseFromString ''candidate:0 1 UDP 1 1.2.3.4 -1 typ host'' = None"
    by (simp add: ParseFromString_def strip_candidate_prefix_def ParseTokens_def ToNumber_def
        is_digit_def)
  from a b c show ?thesis by (intro conjI)
qed

end
